theory Spec2Isabelle
  imports Complex_Main "HOL-Library.Multiset"
begin

section \<open>The file-backed tracking store of lib/simple-database.ts\<close>

text \<open>
  The store keeps two JSON files, one array of Website records and one array of
  CloneAttempt records. Every operation reads a whole file, and every mutating operation
  writes the whole array back. The embedding follows the class \<open>SimpleFileDatabase\<close>
  and the helper \<open>trackWebsiteClone\<close> function by function.

  Conventions of the embedding.
  \<^item> A JavaScript \<open>number\<close> that is an identifier is an \<open>int\<close>; a measured quantity
    (milliseconds, sizes) is a \<open>real\<close>; the result of a division is a \<open>jsnum\<close>, which
    adds the values \<open>NaN\<close> and the two infinities that a division by zero produces.
    Rounding of doubles is not modelled.
  \<^item> A string is a list of characters; \<open>length\<close> is what \<open>String.length\<close> counts.
  \<^item> An optional field \<open>f?: T\<close> is a \<open>T option\<close>.
  \<^item> The record types hold strings, finite numbers and JSON values only. On these,
    \<open>JSON.stringify\<close> followed by \<open>JSON.parse\<close> is the identity, so a file holds a
    list of records. The values that \<open>JSON.stringify\<close> alters (\<open>NaN\<close> and the
    infinities, which it writes as \<open>null\<close>) are outside these types. A file that is
    missing or does not parse is \<open>None\<close>: \<open>readFileSync\<close> or \<open>JSON.parse\<close>
    throws there.
  \<^item> Whether \<open>writeFileSync\<close> succeeds is a flag of the state, one per file. What a
    failing write does to the file is a second flag: \<open>writeFileSync\<close> opens the file
    with truncation, so a write that fails at the open leaves the file as it was, and a
    write that fails behind the open leaves an empty or a partial text, which does not
    parse.
  \<^item> What \<open>console.error\<close> prints is not part of the state.
  \<^item> An \<open>async\<close> function returns a promise, which settles as fulfilled with a value
    or as rejected with a reason. The bodies of \<open>saveWebsite\<close> and
    \<open>saveCloneAttempt\<close> contain no \<open>await\<close> and use the synchronous file
    functions, so each is one step from state to state. \<open>getModelStats\<close> awaits the
    listing and then computes on the list it got. \<open>trackWebsiteClone\<close> awaits the
    lookup and each of the two saves; it is modelled for a call that runs to its end
    with no other call in between. Calls that overlap are not modelled.
\<close>

subsection \<open>Values\<close>

datatype json =
    JNull
  | JBool bool
  | JNumber real
  | JString string
  | JArray "json list"
  | JObject "(string \<times> json) list"

datatype jsnum = Num real | PosInf | NegInf | NaN

datatype 'a promise = Fulfilled 'a | Rejected string

text \<open>\<open>a / b\<close> on finite numbers; signed zeros are not distinguished.\<close>

definition js_div :: "real \<Rightarrow> real \<Rightarrow> jsnum" where
  "js_div a b =
     (if b \<noteq> 0 then Num (a / b)
      else if a = 0 then NaN
      else if 0 < a then PosInf else NegInf)"

text \<open>\<open>x * k\<close> for a finite, positive constant \<open>k\<close>.\<close>

fun js_times :: "jsnum \<Rightarrow> real \<Rightarrow> jsnum" where
  "js_times (Num r) k = Num (r * k)"
| "js_times PosInf k = PosInf"
| "js_times NegInf k = NegInf"
| "js_times NaN k = NaN"

fun js_sub :: "jsnum \<Rightarrow> jsnum \<Rightarrow> jsnum" where
  "js_sub (Num a) (Num b) = Num (a - b)"
| "js_sub NaN y = NaN"
| "js_sub x NaN = NaN"
| "js_sub PosInf PosInf = NaN"
| "js_sub NegInf NegInf = NaN"
| "js_sub PosInf y = PosInf"
| "js_sub NegInf y = NegInf"
| "js_sub (Num a) PosInf = NegInf"
| "js_sub (Num a) NegInf = PosInf"

text \<open>\<open>x || 0\<close>: the falsy numbers are \<open>0\<close> and \<open>NaN\<close>.\<close>

fun js_or_zero :: "jsnum \<Rightarrow> jsnum" where
  "js_or_zero (Num r) = (if r = 0 then Num 0 else Num r)"
| "js_or_zero NaN = Num 0"
| "js_or_zero PosInf = PosInf"
| "js_or_zero NegInf = NegInf"

text \<open>\<open>x > 0\<close>, false for \<open>NaN\<close>.\<close>

fun js_positive :: "jsnum \<Rightarrow> bool" where
  "js_positive (Num r) = (0 < r)"
| "js_positive PosInf = True"
| "js_positive NegInf = False"
| "js_positive NaN = False"

text \<open>
  \<open>Array.prototype.sort(cmp)\<close> is stable: an element moves behind another one only
  where the comparator is positive. Insertion from the right end gives that order.
\<close>

fun insert_by :: "('a \<Rightarrow> 'a \<Rightarrow> jsnum) \<Rightarrow> 'a \<Rightarrow> 'a list \<Rightarrow> 'a list" where
  "insert_by cmp x [] = [x]"
| "insert_by cmp x (y # ys) =
     (if js_positive (cmp x y) then y # insert_by cmp x ys else x # y # ys)"

definition js_sort :: "('a \<Rightarrow> 'a \<Rightarrow> jsnum) \<Rightarrow> 'a list \<Rightarrow> 'a list" where
  "js_sort cmp xs = foldr (insert_by cmp) xs []"

text \<open>\<open>Array.from(new Set(xs))\<close>: the first occurrence of each value, in order.\<close>

fun set_to_array :: "'a list \<Rightarrow> 'a list \<Rightarrow> 'a list" where
  "set_to_array seen [] = []"
| "set_to_array seen (x # xs) =
     (if x \<in> set seen then set_to_array seen xs else x # set_to_array (x # seen) xs)"

text \<open>\<open>s.split(c)\<close> for a one-character separator; the result is never empty.\<close>

fun split_at :: "char \<Rightarrow> string \<Rightarrow> string list" where
  "split_at c [] = [[]]"
| "split_at c (x # xs) =
     (if x = c then [] # split_at c xs
      else (case split_at c xs of
              [] \<Rightarrow> [[x]]
            | p # ps \<Rightarrow> (x # p) # ps))"

text \<open>
  \<open>(s.match(/pat/g) || []).length\<close> for a literal pattern: the matches are found from
  left to right, and the search goes on behind the end of each match.
\<close>

fun count_matches :: "string \<Rightarrow> string \<Rightarrow> nat" where
  "count_matches pat [] = 0"
| "count_matches pat (c # cs) =
     (if take (length pat) (c # cs) = pat
      then Suc (count_matches pat (drop (length pat - 1) cs))
      else count_matches pat cs)"

subsection \<open>Records\<close>

record website =
  w_id :: int
  w_url :: string
  w_title :: string
  w_description :: "string option"
  w_markdown_content :: "string option"
  w_html_content :: "string option"
  w_screenshot_url :: "string option"
  w_scraped_at :: string
  w_firecrawl_metadata :: "json option"
  w_status :: string

record clone_attempt =
  a_id :: int
  a_website_id :: int
  a_model_used :: string
  a_provider :: string
  a_style_selected :: "string option"
  a_additional_instructions :: "string option"
  a_generated_code :: "string option"
  a_sandbox_url :: "string option"
  a_created_at :: string
  a_status :: string
  a_error_message :: "string option"
  a_generation_time_ms :: "real option"
  a_code_size_bytes :: "real option"
  a_component_count :: "real option"

record model_stats =
  total_attempts :: nat
  success_rate :: jsnum
  avg_generation_time_ms :: jsnum
  avg_code_size_bytes :: jsnum
  last_used :: "string option"

record provider_row =
  p_provider :: string
  p_total_attempts :: nat
  p_success_rate :: jsnum
  p_avg_generation_time :: jsnum
  p_avg_code_size :: jsnum

record export_data =
  websites :: "website list"
  attempts :: "clone_attempt list"

text \<open>What a write that fails does to its file.\<close>

datatype write_failure = LeavesFile | TruncatesFile

text \<open>The two files, whether each can be written, and how a write to each fails.\<close>

record db =
  websitesFile :: "website list option"
  attemptsFile :: "clone_attempt list option"
  websitesWritable :: bool
  attemptsWritable :: bool
  websitesFailure :: write_failure
  attemptsFailure :: write_failure

subsection \<open>Reading and writing the files\<close>

text \<open>The \<open>catch\<close> of a read returns the empty array.\<close>

definition readWebsites :: "db \<Rightarrow> website list" where
  "readWebsites s = (case websitesFile s of None \<Rightarrow> [] | Some ws \<Rightarrow> ws)"

definition readAttempts :: "db \<Rightarrow> clone_attempt list" where
  "readAttempts s = (case attemptsFile s of None \<Rightarrow> [] | Some as \<Rightarrow> as)"

text \<open>The \<open>catch\<close> of a write logs the error and returns normally.\<close>

definition writeWebsites :: "website list \<Rightarrow> db \<Rightarrow> db" where
  "writeWebsites ws s =
     (if websitesWritable s then s\<lparr>websitesFile := Some ws\<rparr>
      else (case websitesFailure s of
              LeavesFile \<Rightarrow> s
            | TruncatesFile \<Rightarrow> s\<lparr>websitesFile := None\<rparr>))"

definition writeAttempts :: "clone_attempt list \<Rightarrow> db \<Rightarrow> db" where
  "writeAttempts as s =
     (if attemptsWritable s then s\<lparr>attemptsFile := Some as\<rparr>
      else (case attemptsFailure s of
              LeavesFile \<Rightarrow> s
            | TruncatesFile \<Rightarrow> s\<lparr>attemptsFile := None\<rparr>))"

text \<open>
  \<open>items.length > 0 ? Math.max(...items.map(item => item.id)) + 1 : 1\<close>, on the list
  of the identifiers of the items.
\<close>

definition getNextId :: "int list \<Rightarrow> int" where
  "getNextId ids = (case ids of [] \<Rightarrow> 1 | i # rest \<Rightarrow> fold max rest i + 1)"

subsection \<open>Website operations\<close>

text \<open>The \<open>id\<close> of the argument is not read: the spread is followed by the new \<open>id\<close>.\<close>

definition saveWebsite :: "website \<Rightarrow> db \<Rightarrow> int promise \<times> db" where
  "saveWebsite website s =
     (let ws = readWebsites s;
          newWebsite = website\<lparr>w_id := getNextId (map w_id ws)\<rparr>;
          ws' = ws @ [newWebsite];
          s' = writeWebsites ws' s
      in (Fulfilled (w_id newWebsite), s'))"

definition getWebsiteByUrl :: "string \<Rightarrow> db \<Rightarrow> website option" where
  "getWebsiteByUrl u s = find (\<lambda>w. w_url w = u) (readWebsites s)"

subsection \<open>Clone attempt operations\<close>

definition component_marker :: string where
  "component_marker = ''export default function''"

definition saveCloneAttempt :: "clone_attempt \<Rightarrow> db \<Rightarrow> int promise \<times> db" where
  "saveCloneAttempt attempt s =
     (let as = readAttempts s;
          newAttempt = attempt\<lparr>
            a_id := getNextId (map a_id as),
            a_code_size_bytes :=
              Some (case a_generated_code attempt of
                      None \<Rightarrow> 0
                    | Some code \<Rightarrow> real (length code)),
            a_component_count :=
              Some (case a_generated_code attempt of
                      None \<Rightarrow> 0
                    | Some code \<Rightarrow> real (count_matches component_marker code))\<rparr>;
          as' = as @ [newAttempt];
          s' = writeAttempts as' s
      in (Fulfilled (a_id newAttempt), s'))"

text \<open>
  The comparator of the two listings is
  \<open>new Date(b.created_at).getTime() - new Date(a.created_at).getTime()\<close>. The parsing
  of a date string is a parameter \<open>getTime\<close>, \<open>NaN\<close> for a string that is no date.
\<close>

definition newest_first :: "(string \<Rightarrow> jsnum) \<Rightarrow> clone_attempt \<Rightarrow> clone_attempt \<Rightarrow> jsnum" where
  "newest_first getTime a b = js_sub (getTime (a_created_at b)) (getTime (a_created_at a))"

definition getCloneAttemptsByWebsite ::
  "(string \<Rightarrow> jsnum) \<Rightarrow> int \<Rightarrow> db \<Rightarrow> clone_attempt list" where
  "getCloneAttemptsByWebsite getTime websiteId s =
     js_sort (newest_first getTime) (filter (\<lambda>a. a_website_id a = websiteId) (readAttempts s))"

definition getCloneAttemptsByModel ::
  "(string \<Rightarrow> jsnum) \<Rightarrow> string \<Rightarrow> db \<Rightarrow> clone_attempt list" where
  "getCloneAttemptsByModel getTime modelName s =
     js_sort (newest_first getTime) (filter (\<lambda>a. a_model_used a = modelName) (readAttempts s))"

subsection \<open>Analytics operations\<close>

text \<open>
  In the sums, \<open>a.generation_time_ms || 0\<close> and \<open>a.code_size_bytes || 0\<close> are 0 for a
  field that is missing and the number itself otherwise.
\<close>

definition getModelStats :: "(string \<Rightarrow> jsnum) \<Rightarrow> string \<Rightarrow> db \<Rightarrow> model_stats option" where
  "getModelStats getTime modelName s =
     (let as = getCloneAttemptsByModel getTime modelName s
      in if length as = 0 then None
         else
           (let successful = filter (\<lambda>a. a_status a = ''success'') as;
                avgTime =
                  js_div
                    (foldl (\<lambda>sum a. sum + (case a_generation_time_ms a of
                                             None \<Rightarrow> 0
                                           | Some t \<Rightarrow> t)) 0 as)
                    (real (length as));
                avgCodeSize =
                  js_div
                    (foldl (\<lambda>sum a. sum + (case a_code_size_bytes a of
                                             None \<Rightarrow> 0
                                           | Some b \<Rightarrow> b)) 0 successful)
                    (real (length successful))
            in Some \<lparr>total_attempts = length as,
                     success_rate =
                       js_times (js_div (real (length successful)) (real (length as))) 100,
                     avg_generation_time_ms = avgTime,
                     avg_code_size_bytes = avgCodeSize,
                     last_used = (case as of [] \<Rightarrow> None | a # _ \<Rightarrow> Some (a_created_at a))\<rparr>))"

definition provider_stats :: "clone_attempt list \<Rightarrow> string \<Rightarrow> provider_row" where
  "provider_stats as provider =
     (let providerAttempts = filter (\<lambda>a. a_provider a = provider) as;
          successful = filter (\<lambda>a. a_status a = ''success'') providerAttempts
      in \<lparr>p_provider = provider,
          p_total_attempts = length providerAttempts,
          p_success_rate =
            js_times (js_div (real (length successful)) (real (length providerAttempts))) 100,
          p_avg_generation_time =
            js_div
              (foldl (\<lambda>sum a. sum + (case a_generation_time_ms a of
                                       None \<Rightarrow> 0
                                     | Some t \<Rightarrow> t)) 0 providerAttempts)
              (real (length providerAttempts)),
          p_avg_code_size =
            js_or_zero
              (js_div
                 (foldl (\<lambda>sum a. sum + (case a_code_size_bytes a of
                                          None \<Rightarrow> 0
                                        | Some b \<Rightarrow> b)) 0 successful)
                 (real (length successful)))\<rparr>)"

definition getProviderComparison :: "db \<Rightarrow> provider_row list" where
  "getProviderComparison s =
     (let as = readAttempts s;
          providers = set_to_array [] (map a_provider as)
      in js_sort (\<lambda>a b. js_sub (p_success_rate b) (p_success_rate a))
           (map (provider_stats as) providers))"

definition exportData :: "db \<Rightarrow> export_data" where
  "exportData s = \<lparr>websites = readWebsites s, attempts = readAttempts s\<rparr>"

subsection \<open>The tracking helper\<close>

definition derive_provider :: "string \<Rightarrow> string" where
  "derive_provider modelUsed =
     (if CHR ''/'' \<in> set modelUsed then hd (split_at CHR ''/'' modelUsed) else ''unknown'')"

text \<open>
  The two readings of the clock, \<open>new Date().toISOString()\<close>, are the parameters
  \<open>scrapedNow\<close> and \<open>createdNow\<close>. A rejection of an awaited promise leaves the function.
\<close>

definition trackWebsiteClone ::
  "string \<Rightarrow> string \<Rightarrow> string \<Rightarrow> real \<Rightarrow> string \<Rightarrow> string option \<Rightarrow> string \<Rightarrow> string \<Rightarrow> db
     \<Rightarrow> int promise \<times> db" where
  "trackWebsiteClone u modelUsed generatedCode generationTimeMs st errorMessage
       scrapedNow createdNow s =
     (let found =
            (case getWebsiteByUrl u s of
               Some w \<Rightarrow> (Fulfilled (w_id w), s)
             | None \<Rightarrow>
                 saveWebsite
                   \<lparr>w_id = 0,
                    w_url = u,
                    w_title = ''Website: '' @ u,
                    w_description = Some ''Scraped for cloning'',
                    w_markdown_content = None,
                    w_html_content = None,
                    w_screenshot_url = None,
                    w_scraped_at = scrapedNow,
                    w_firecrawl_metadata = None,
                    w_status = ''scraped''\<rparr> s)
      in case found of
           (Rejected e, s1) \<Rightarrow> (Rejected e, s1)
         | (Fulfilled websiteId, s1) \<Rightarrow>
             saveCloneAttempt
               \<lparr>a_id = 0,
                a_website_id = websiteId,
                a_model_used = modelUsed,
                a_provider = derive_provider modelUsed,
                a_style_selected = None,
                a_additional_instructions = None,
                a_generated_code = Some generatedCode,
                a_sandbox_url = None,
                a_created_at = createdNow,
                a_status = st,
                a_error_message = errorMessage,
                a_generation_time_ms = Some generationTimeMs,
                a_code_size_bytes = None,
                a_component_count = None\<rparr> s1)"

subsection \<open>Sequences of operations\<close>

text \<open>The arguments of one call of \<open>trackWebsiteClone\<close>, with its two clock readings.\<close>

record track_call =
  t_url :: string
  t_modelUsed :: string
  t_generatedCode :: string
  t_generationTimeMs :: real
  t_status :: string
  t_errorMessage :: "string option"
  t_scrapedNow :: string
  t_createdNow :: string

definition track :: "track_call \<Rightarrow> db \<Rightarrow> int promise \<times> db" where
  "track c s =
     trackWebsiteClone (t_url c) (t_modelUsed c) (t_generatedCode c) (t_generationTimeMs c)
       (t_status c) (t_errorMessage c) (t_scrapedNow c) (t_createdNow c) s"

text \<open>Calls that each run to their end before the next one starts.\<close>

datatype op = SaveWebsite website | SaveCloneAttempt clone_attempt | Track track_call

fun run_op :: "op \<Rightarrow> db \<Rightarrow> db" where
  "run_op (SaveWebsite w) s = snd (saveWebsite w s)"
| "run_op (SaveCloneAttempt a) s = snd (saveCloneAttempt a s)"
| "run_op (Track c) s = snd (track c s)"

definition run_ops :: "op list \<Rightarrow> db \<Rightarrow> db" where
  "run_ops ops s = fold run_op ops s"

fun is_save_website :: "op \<Rightarrow> bool" where
  "is_save_website (SaveWebsite w) = True"
| "is_save_website (SaveCloneAttempt a) = False"
| "is_save_website (Track c) = False"

text \<open>The arguments of the calls of each kind in a sequence, in their order.\<close>

fun saved_websites :: "op list \<Rightarrow> website list" where
  "saved_websites [] = []"
| "saved_websites (SaveWebsite w # ops) = w # saved_websites ops"
| "saved_websites (SaveCloneAttempt a # ops) = saved_websites ops"
| "saved_websites (Track c # ops) = saved_websites ops"

fun saved_attempts :: "op list \<Rightarrow> clone_attempt list" where
  "saved_attempts [] = []"
| "saved_attempts (SaveWebsite w # ops) = saved_attempts ops"
| "saved_attempts (SaveCloneAttempt a # ops) = a # saved_attempts ops"
| "saved_attempts (Track c # ops) = saved_attempts ops"

text \<open>
  The identifiers that the calls of a sequence resolve with, in the order of the calls:
  those of the websites from \<open>saveWebsite\<close>, and those of the attempts from
  \<open>saveCloneAttempt\<close> and \<open>trackWebsiteClone\<close>. A rejected call gives none.
\<close>

fun fulfilled :: "'a promise \<Rightarrow> 'a list" where
  "fulfilled (Fulfilled x) = [x]"
| "fulfilled (Rejected e) = []"

fun website_ids_returned :: "op list \<Rightarrow> db \<Rightarrow> int list" where
  "website_ids_returned [] s = []"
| "website_ids_returned (SaveWebsite w # ops) s =
     fulfilled (fst (saveWebsite w s)) @ website_ids_returned ops (snd (saveWebsite w s))"
| "website_ids_returned (SaveCloneAttempt a # ops) s =
     website_ids_returned ops (snd (saveCloneAttempt a s))"
| "website_ids_returned (Track c # ops) s = website_ids_returned ops (snd (track c s))"

fun attempt_ids_returned :: "op list \<Rightarrow> db \<Rightarrow> int list" where
  "attempt_ids_returned [] s = []"
| "attempt_ids_returned (SaveWebsite w # ops) s =
     attempt_ids_returned ops (snd (saveWebsite w s))"
| "attempt_ids_returned (SaveCloneAttempt a # ops) s =
     fulfilled (fst (saveCloneAttempt a s)) @
     attempt_ids_returned ops (snd (saveCloneAttempt a s))"
| "attempt_ids_returned (Track c # ops) s =
     fulfilled (fst (track c s)) @ attempt_ids_returned ops (snd (track c s))"

subsection \<open>Concrete inputs\<close>

definition empty_db :: db where
  "empty_db =
     \<lparr>websitesFile = Some [], attemptsFile = Some [],
      websitesWritable = True, attemptsWritable = True,
      websitesFailure = LeavesFile, attemptsFailure = LeavesFile\<rparr>"

definition readonly_db :: db where
  "readonly_db =
     \<lparr>websitesFile = Some [], attemptsFile = Some [],
      websitesWritable = False, attemptsWritable = False,
      websitesFailure = LeavesFile, attemptsFailure = LeavesFile\<rparr>"

definition website_of :: "string \<Rightarrow> website" where
  "website_of u =
     \<lparr>w_id = 0, w_url = u, w_title = ''t'', w_description = None,
      w_markdown_content = None, w_html_content = None, w_screenshot_url = None,
      w_scraped_at = ''2024-01-15T10:30:00.000Z'', w_firecrawl_metadata = None,
      w_status = ''scraped''\<rparr>"

definition attempt_of :: "int \<Rightarrow> string \<Rightarrow> string \<Rightarrow> real \<Rightarrow> clone_attempt" where
  "attempt_of wid modelName st ms =
     \<lparr>a_id = 0, a_website_id = wid, a_model_used = modelName,
      a_provider = derive_provider modelName, a_style_selected = None,
      a_additional_instructions = None, a_generated_code = Some ''x'',
      a_sandbox_url = None, a_created_at = ''2024-01-15T10:30:00.000Z'', a_status = st,
      a_error_message = None, a_generation_time_ms = Some ms,
      a_code_size_bytes = None, a_component_count = None\<rparr>"

definition call_of :: "string \<Rightarrow> string \<Rightarrow> track_call" where
  "call_of u modelName =
     \<lparr>t_url = u, t_modelUsed = modelName, t_generatedCode = ''x'',
      t_generationTimeMs = 3500, t_status = ''success'', t_errorMessage = None,
      t_scrapedNow = ''2024-01-15T10:30:00.000Z'',
      t_createdNow = ''2024-01-15T10:30:01.000Z''\<rparr>"

subsection \<open>Auxiliary definitions for the statements and proofs\<close>

text \<open>
  The placeholder record and the attempt that \<open>trackWebsiteClone\<close> builds, the record
  that \<open>saveCloneAttempt\<close> stores, and the numbering of a run of new records.
\<close>

fun is_track :: "op \<Rightarrow> bool" where
  "is_track (SaveWebsite w) = False"
| "is_track (SaveCloneAttempt a) = False"
| "is_track (Track c) = True"

fun number_websites :: "int \<Rightarrow> website list \<Rightarrow> website list" where
  "number_websites n [] = []"
| "number_websites n (w # ws) = w\<lparr>w_id := n\<rparr> # number_websites (n + 1) ws"

definition stored_attempt :: "int \<Rightarrow> clone_attempt \<Rightarrow> clone_attempt" where
  "stored_attempt n a =
     a\<lparr>a_id := n,
       a_code_size_bytes :=
         Some (case a_generated_code a of
                 None \<Rightarrow> 0
               | Some code \<Rightarrow> real (length code)),
       a_component_count :=
         Some (case a_generated_code a of
                 None \<Rightarrow> 0
               | Some code \<Rightarrow> real (count_matches component_marker code))\<rparr>"

fun number_attempts :: "int \<Rightarrow> clone_attempt list \<Rightarrow> clone_attempt list" where
  "number_attempts n [] = []"
| "number_attempts n (a # as) = stored_attempt n a # number_attempts (n + 1) as"

definition placeholder_website :: "string \<Rightarrow> string \<Rightarrow> website" where
  "placeholder_website u scrapedNow =
     \<lparr>w_id = 0,
      w_url = u,
      w_title = ''Website: '' @ u,
      w_description = Some ''Scraped for cloning'',
      w_markdown_content = None,
      w_html_content = None,
      w_screenshot_url = None,
      w_scraped_at = scrapedNow,
      w_firecrawl_metadata = None,
      w_status = ''scraped''\<rparr>"

definition tracked_attempt :: "track_call \<Rightarrow> int \<Rightarrow> clone_attempt" where
  "tracked_attempt c websiteId =
     \<lparr>a_id = 0,
      a_website_id = websiteId,
      a_model_used = t_modelUsed c,
      a_provider = derive_provider (t_modelUsed c),
      a_style_selected = None,
      a_additional_instructions = None,
      a_generated_code = Some (t_generatedCode c),
      a_sandbox_url = None,
      a_created_at = t_createdNow c,
      a_status = t_status c,
      a_error_message = t_errorMessage c,
      a_generation_time_ms = Some (t_generationTimeMs c),
      a_code_size_bytes = None,
      a_component_count = None\<rparr>"

text \<open>Stores and sequences of calls for the examples.\<close>

definition example_code :: string where
  "example_code = ''export default function App() {} export default function Nav() {}''"

definition example_ops :: "op list" where
  "example_ops =
     [SaveWebsite (website_of ''https://a.example''),
      SaveCloneAttempt
        ((attempt_of 1 ''ollama/llama3.2:7b'' ''success'' 3000)
           \<lparr>a_generated_code := Some example_code\<rparr>),
      SaveWebsite (website_of ''https://b.example'')]"

definition example_tracks :: "op list" where
  "example_tracks =
     [Track (call_of ''https://a.example'' ''ollama/llama3.2:7b''),
      Track (call_of ''https://a.example'' ''customModel''),
      SaveCloneAttempt (attempt_of 1 ''customModel'' ''error'' 5000)]"

definition tracked_once_db :: db where
  "tracked_once_db =
     run_ops [Track (call_of ''https://a.example'' ''ollama/llama3.2:7b'')] empty_db"

definition three_attempts_db :: db where
  "three_attempts_db =
     \<lparr>websitesFile = Some [(website_of ''https://a.example'')\<lparr>w_id := 1\<rparr>],
      attemptsFile = Some
        [(attempt_of 1 ''ollama/llama3.2:7b'' ''success'' 3000)
           \<lparr>a_id := 1, a_code_size_bytes := Some 1200\<rparr>,
         (attempt_of 1 ''ollama/llama3.2:7b'' ''success'' 4000)
           \<lparr>a_id := 2, a_code_size_bytes := Some 800\<rparr>,
         (attempt_of 1 ''vllm/other'' ''success'' 100)
           \<lparr>a_id := 3, a_code_size_bytes := Some 70\<rparr>,
         (attempt_of 1 ''ollama/llama3.2:7b'' ''error'' 5000)
           \<lparr>a_id := 4, a_code_size_bytes := Some 500\<rparr>],
      websitesWritable = True, attemptsWritable = True,
      websitesFailure = LeavesFile, attemptsFailure = LeavesFile\<rparr>"

definition failed_only_db :: db where
  "failed_only_db =
     \<lparr>websitesFile = Some [(website_of ''https://a.example'')\<lparr>w_id := 1\<rparr>],
      attemptsFile = Some
        [(attempt_of 1 ''ollama/llama3.2:7b'' ''error'' 3000)\<lparr>a_id := 1\<rparr>],
      websitesWritable = True, attemptsWritable = True,
      websitesFailure = LeavesFile, attemptsFailure = LeavesFile\<rparr>"

text \<open>A store with two websites whose next write fails behind the open.\<close>

definition truncating_db :: db where
  "truncating_db =
     \<lparr>websitesFile = Some
        [(website_of ''https://a.example'')\<lparr>w_id := 1\<rparr>,
         (website_of ''https://b.example'')\<lparr>w_id := 2\<rparr>],
      attemptsFile = Some [],
      websitesWritable = False, attemptsWritable = False,
      websitesFailure = TruncatesFile, attemptsFailure = TruncatesFile\<rparr>"

section \<open>Properties\<close>

subsection \<open>Identifier allocation\<close>

lemma fold_max_Max: "fold max rest (i::int) = Max (set (i # rest))"
  by (rule Max.set_eq_fold [symmetric])

lemma getNextId_Max: "getNextId ids = (if ids = [] then 1 else Max (set ids) + 1)"
proof (cases ids)
  case Nil
  then show ?thesis by (simp add: getNextId_def)
next
  case (Cons i rest)
  have "fold max rest i = Max (set (i # rest))" by (rule fold_max_Max)
  then show ?thesis using Cons by (simp add: getNextId_def)
qed

lemma getNextId_greater: "i \<in> set ids \<Longrightarrow> i < getNextId ids"
proof -
  assume h: "i \<in> set ids"
  then have ne: "ids \<noteq> []" by auto
  have "i \<le> Max (set ids)" using h by simp
  then show ?thesis using ne by (simp add: getNextId_Max)
qed

lemma getNextId_fresh: "getNextId ids \<notin> set ids"
  using getNextId_greater by fastforce

lemma getNextId_snoc: "getNextId (ids @ [getNextId ids]) = getNextId ids + 1"
proof (cases "ids = []")
  case True
  then show ?thesis by (simp add: getNextId_def)
next
  case False
  have "Max (set (ids @ [Max (set ids) + 1])) = Max (set ids) + 1"
    using False by (simp add: max_def)
  then show ?thesis using False by (simp add: getNextId_Max)
qed

subsection \<open>Sorting, sets of values and splitting\<close>

lemma mset_insert_by: "mset (insert_by cmp x xs) = add_mset x (mset xs)"
  by (induction xs) auto

lemma mset_js_sort: "mset (js_sort cmp xs) = mset xs"
  unfolding js_sort_def by (induction xs) (auto simp: mset_insert_by)

lemma set_js_sort: "set (js_sort cmp xs) = set xs"
  by (metis mset_js_sort set_mset_mset)

lemma length_js_sort: "length (js_sort cmp xs) = length xs"
  by (metis mset_js_sort size_mset)

lemma filter_js_sort_length: "length (filter P (js_sort cmp xs)) = length (filter P xs)"
  by (metis mset_js_sort mset_filter size_mset)

lemma sum_list_js_sort: "sum_list (map f (js_sort cmp xs)) = sum_list (map (f::'a \<Rightarrow> real) xs)"
  by (metis mset_js_sort mset_map sum_mset_sum_list)

lemma sum_list_filter_js_sort:
  "sum_list (map f (filter P (js_sort cmp xs))) = sum_list (map (f::'a \<Rightarrow> real) (filter P xs))"
  by (metis mset_js_sort mset_filter mset_map sum_mset_sum_list)

lemma foldl_plus: "foldl (\<lambda>sum a. sum + f a) (z::real) xs = z + sum_list (map f xs)"
  by (induction xs arbitrary: z) auto

lemma set_set_to_array: "set (set_to_array seen xs) = set xs - set seen"
  by (induction seen xs rule: set_to_array.induct) auto

lemma split_at_nonempty: "split_at c s \<noteq> []"
  by (induction s) (auto split: list.splits)

lemma hd_split_at: "hd (split_at c s) = takeWhile (\<lambda>x. x \<noteq> c) s"
  by (induction s) (auto split: list.splits simp: split_at_nonempty)

subsection \<open>Effect of each operation on the two files\<close>

lemma readWebsites_writeWebsites:
  "readWebsites (writeWebsites ws s) =
     (if websitesWritable s then ws
      else if websitesFailure s = LeavesFile then readWebsites s else [])"
  by (simp add: readWebsites_def writeWebsites_def split: write_failure.splits)

lemma readAttempts_writeWebsites: "readAttempts (writeWebsites ws s) = readAttempts s"
  by (simp add: readAttempts_def writeWebsites_def split: write_failure.splits)

lemma readAttempts_writeAttempts:
  "readAttempts (writeAttempts as s) =
     (if attemptsWritable s then as
      else if attemptsFailure s = LeavesFile then readAttempts s else [])"
  by (simp add: readAttempts_def writeAttempts_def split: write_failure.splits)

lemma readWebsites_writeAttempts: "readWebsites (writeAttempts as s) = readWebsites s"
  by (simp add: readWebsites_def writeAttempts_def split: write_failure.splits)

lemma flags_writeWebsites:
  "websitesWritable (writeWebsites ws s) = websitesWritable s"
  "attemptsWritable (writeWebsites ws s) = attemptsWritable s"
  "websitesFailure (writeWebsites ws s) = websitesFailure s"
  "attemptsFailure (writeWebsites ws s) = attemptsFailure s"
  by (simp_all add: writeWebsites_def split: write_failure.splits)

lemma flags_writeAttempts:
  "websitesWritable (writeAttempts as s) = websitesWritable s"
  "attemptsWritable (writeAttempts as s) = attemptsWritable s"
  "websitesFailure (writeAttempts as s) = websitesFailure s"
  "attemptsFailure (writeAttempts as s) = attemptsFailure s"
  by (simp_all add: writeAttempts_def split: write_failure.splits)

lemma fst_saveWebsite:
  "fst (saveWebsite w s) = Fulfilled (getNextId (map w_id (readWebsites s)))"
  by (simp add: saveWebsite_def Let_def)

lemma snd_saveWebsite:
  "snd (saveWebsite w s) =
     writeWebsites (readWebsites s @ [w\<lparr>w_id := getNextId (map w_id (readWebsites s))\<rparr>]) s"
  by (simp add: saveWebsite_def Let_def)

lemma fst_saveCloneAttempt:
  "fst (saveCloneAttempt a s) = Fulfilled (getNextId (map a_id (readAttempts s)))"
  by (simp add: saveCloneAttempt_def Let_def)

lemma snd_saveCloneAttempt:
  "snd (saveCloneAttempt a s) =
     writeAttempts
       (readAttempts s @ [stored_attempt (getNextId (map a_id (readAttempts s))) a]) s"
  by (simp add: saveCloneAttempt_def Let_def stored_attempt_def)

lemma websites_after_saveWebsite:
  "readWebsites (snd (saveWebsite w s)) =
     (if websitesWritable s
      then readWebsites s @ [w\<lparr>w_id := getNextId (map w_id (readWebsites s))\<rparr>]
      else if websitesFailure s = LeavesFile then readWebsites s else [])"
  by (simp add: snd_saveWebsite readWebsites_writeWebsites)

lemma attempts_after_saveWebsite: "readAttempts (snd (saveWebsite w s)) = readAttempts s"
  by (simp add: snd_saveWebsite readAttempts_writeWebsites)

lemma flags_after_saveWebsite:
  "websitesWritable (snd (saveWebsite w s)) = websitesWritable s"
  "attemptsWritable (snd (saveWebsite w s)) = attemptsWritable s"
  "websitesFailure (snd (saveWebsite w s)) = websitesFailure s"
  "attemptsFailure (snd (saveWebsite w s)) = attemptsFailure s"
  by (simp_all add: snd_saveWebsite flags_writeWebsites)

lemma attempts_after_saveCloneAttempt:
  "readAttempts (snd (saveCloneAttempt a s)) =
     (if attemptsWritable s
      then readAttempts s @ [stored_attempt (getNextId (map a_id (readAttempts s))) a]
      else if attemptsFailure s = LeavesFile then readAttempts s else [])"
  by (simp add: snd_saveCloneAttempt readAttempts_writeAttempts)

lemma websites_after_saveCloneAttempt:
  "readWebsites (snd (saveCloneAttempt a s)) = readWebsites s"
  by (simp add: snd_saveCloneAttempt readWebsites_writeAttempts)

lemma flags_after_saveCloneAttempt:
  "websitesWritable (snd (saveCloneAttempt a s)) = websitesWritable s"
  "attemptsWritable (snd (saveCloneAttempt a s)) = attemptsWritable s"
  "websitesFailure (snd (saveCloneAttempt a s)) = websitesFailure s"
  "attemptsFailure (snd (saveCloneAttempt a s)) = attemptsFailure s"
  by (simp_all add: snd_saveCloneAttempt flags_writeAttempts)

lemma track_found:
  "getWebsiteByUrl (t_url c) s = Some w \<Longrightarrow>
     track c s = saveCloneAttempt (tracked_attempt c (w_id w)) s"
  by (simp add: track_def trackWebsiteClone_def tracked_attempt_def)

lemma track_missing:
  "getWebsiteByUrl (t_url c) s = None \<Longrightarrow>
     track c s =
       saveCloneAttempt
         (tracked_attempt c (getNextId (map w_id (readWebsites s))))
         (snd (saveWebsite (placeholder_website (t_url c) (t_scrapedNow c)) s))"
  by (simp add: track_def trackWebsiteClone_def tracked_attempt_def placeholder_website_def
      saveWebsite_def Let_def)

lemma getWebsiteByUrl_None: "getWebsiteByUrl u s = None \<longleftrightarrow> u \<notin> set (map w_url (readWebsites s))"
  by (auto simp: getWebsiteByUrl_def find_None_iff)

lemma getWebsiteByUrl_Some:
  "getWebsiteByUrl u s = Some w \<Longrightarrow> w \<in> set (readWebsites s) \<and> w_url w = u"
  by (auto simp: getWebsiteByUrl_def find_Some_iff)

lemma websites_after_track:
  "readWebsites (snd (track c s)) =
     (if t_url c \<in> set (map w_url (readWebsites s)) then readWebsites s
      else if websitesWritable s
      then readWebsites s @
           [(placeholder_website (t_url c) (t_scrapedNow c))
              \<lparr>w_id := getNextId (map w_id (readWebsites s))\<rparr>]
      else if websitesFailure s = LeavesFile then readWebsites s else [])"
proof (cases "getWebsiteByUrl (t_url c) s")
  case None
  then show ?thesis
    using getWebsiteByUrl_None [of "t_url c" s]
    by (simp add: track_missing websites_after_saveCloneAttempt websites_after_saveWebsite)
next
  case (Some w)
  then have "t_url c \<in> set (map w_url (readWebsites s))"
    using getWebsiteByUrl_None [of "t_url c" s] by simp
  then show ?thesis using Some
    by (simp add: track_found websites_after_saveCloneAttempt)
qed

lemma flags_after_track:
  "websitesWritable (snd (track c s)) = websitesWritable s"
  "attemptsWritable (snd (track c s)) = attemptsWritable s"
  "websitesFailure (snd (track c s)) = websitesFailure s"
  "attemptsFailure (snd (track c s)) = attemptsFailure s"
  by (cases "getWebsiteByUrl (t_url c) s";
      simp add: track_found track_missing flags_after_saveCloneAttempt flags_after_saveWebsite)+

lemma attempts_after_track:
  "readAttempts (snd (track c s)) =
     (if attemptsWritable s
      then readAttempts s @
        [stored_attempt (getNextId (map a_id (readAttempts s)))
          (tracked_attempt c
             (case getWebsiteByUrl (t_url c) s of
                Some w \<Rightarrow> w_id w
              | None \<Rightarrow> getNextId (map w_id (readWebsites s))))]
      else if attemptsFailure s = LeavesFile then readAttempts s else [])"
  by (cases "getWebsiteByUrl (t_url c) s")
     (simp_all add: track_found track_missing attempts_after_saveCloneAttempt
        attempts_after_saveWebsite flags_after_saveWebsite)

lemma fst_track:
  "fst (track c s) = Fulfilled (getNextId (map a_id (readAttempts s)))"
  by (cases "getWebsiteByUrl (t_url c) s")
     (simp_all add: track_found track_missing fst_saveCloneAttempt attempts_after_saveWebsite)

text \<open>
  One call leaves a collection as it was, or appends one record with the next
  identifier, or, where a write fails behind the open, leaves no record.
\<close>

lemma step_websites:
  "readWebsites (run_op x s) = readWebsites s \<or>
   (\<not> websitesWritable s \<and> readWebsites (run_op x s) = []) \<or>
   (\<exists>w. readWebsites (run_op x s) = readWebsites s @ [w] \<and>
        w_id w = getNextId (map w_id (readWebsites s)))"
  by (cases x) (simp_all add: websites_after_saveWebsite websites_after_saveCloneAttempt
      websites_after_track)

lemma step_attempts:
  "readAttempts (run_op x s) = readAttempts s \<or>
   (\<not> attemptsWritable s \<and> readAttempts (run_op x s) = []) \<or>
   (\<exists>a. readAttempts (run_op x s) = readAttempts s @ [a] \<and>
        a_id a = getNextId (map a_id (readAttempts s)))"
  by (cases x) (simp_all add: attempts_after_saveWebsite attempts_after_saveCloneAttempt
      attempts_after_track stored_attempt_def)

lemma step_distinct_websites:
  "distinct (map w_id (readWebsites s)) \<Longrightarrow> distinct (map w_id (readWebsites (run_op x s)))"
  using step_websites [of x s] getNextId_fresh [of "map w_id (readWebsites s)"] by auto

lemma step_distinct_attempts:
  "distinct (map a_id (readAttempts s)) \<Longrightarrow> distinct (map a_id (readAttempts (run_op x s)))"
  using step_attempts [of x s] getNextId_fresh [of "map a_id (readAttempts s)"] by auto

lemma run_distinct_websites:
  "distinct (map w_id (readWebsites s)) \<Longrightarrow> distinct (map w_id (readWebsites (run_ops xs s)))"
  unfolding run_ops_def
  by (induction xs arbitrary: s) (simp_all add: step_distinct_websites)

lemma run_distinct_attempts:
  "distinct (map a_id (readAttempts s)) \<Longrightarrow> distinct (map a_id (readAttempts (run_ops xs s)))"
  unfolding run_ops_def
  by (induction xs arbitrary: s) (simp_all add: step_distinct_attempts)

lemma flags_run_op:
  "websitesWritable (run_op x s) = websitesWritable s"
  "attemptsWritable (run_op x s) = attemptsWritable s"
  "websitesFailure (run_op x s) = websitesFailure s"
  "attemptsFailure (run_op x s) = attemptsFailure s"
  by (cases x; simp add: flags_after_saveWebsite flags_after_saveCloneAttempt flags_after_track)+

lemma step_keeps_websites:
  "websitesWritable s \<Longrightarrow>
   take (length (readWebsites s)) (readWebsites (run_op x s)) = readWebsites s"
  using step_websites [of x s] by auto

lemma step_keeps_attempts:
  "attemptsWritable s \<Longrightarrow>
   take (length (readAttempts s)) (readAttempts (run_op x s)) = readAttempts s"
  using step_attempts [of x s] by auto

lemma take_take_prefix:
  assumes "take (length xs) ys = xs" "take (length ys) zs = ys"
  shows "take (length xs) zs = xs"
proof -
  have "length xs \<le> length ys" using assms(1) by (metis length_take min.cobounded1)
  then have "take (length xs) zs = take (length xs) (take (length ys) zs)"
    by (simp add: min_def)
  then show ?thesis using assms by simp
qed

lemma run_keeps_websites:
  "websitesWritable s \<Longrightarrow>
   take (length (readWebsites s)) (readWebsites (run_ops xs s)) = readWebsites s"
  unfolding run_ops_def
proof (induction xs arbitrary: s)
  case Nil
  then show ?case by simp
next
  case (Cons x xs)
  have w1: "websitesWritable (run_op x s)" using Cons.prems by (simp add: flags_run_op)
  show ?case
    using take_take_prefix [OF step_keeps_websites [OF Cons.prems, of x] Cons.IH [OF w1]]
    by simp
qed

lemma run_keeps_attempts:
  "attemptsWritable s \<Longrightarrow>
   take (length (readAttempts s)) (readAttempts (run_ops xs s)) = readAttempts s"
  unfolding run_ops_def
proof (induction xs arbitrary: s)
  case Nil
  then show ?case by simp
next
  case (Cons x xs)
  have w1: "attemptsWritable (run_op x s)" using Cons.prems by (simp add: flags_run_op)
  show ?case
    using take_take_prefix [OF step_keeps_attempts [OF Cons.prems, of x] Cons.IH [OF w1]]
    by simp
qed

lemma stored_attempt_literal:
  "stored_attempt n a =
     a\<lparr>a_id := n,
       a_code_size_bytes :=
         Some (case a_generated_code a of
                 None \<Rightarrow> 0
               | Some code \<Rightarrow> real (length code)),
       a_component_count :=
         Some (case a_generated_code a of
                 None \<Rightarrow> 0
               | Some code \<Rightarrow> real (count_matches ''export default function'' code))\<rparr>"
  unfolding stored_attempt_def component_marker_def by (rule refl)

lemma length_number_websites: "length (number_websites n ws) = length ws"
  by (induction ws arbitrary: n) auto

lemma nth_number_websites:
  "k < length ws \<Longrightarrow> number_websites n ws ! k = (ws ! k)\<lparr>w_id := n + int k\<rparr>"
proof (induction ws arbitrary: n k)
  case Nil
  then show ?case by simp
next
  case (Cons w ws)
  show ?case
  proof (cases k)
    case 0
    then show ?thesis by simp
  next
    case (Suc j)
    then have "j < length ws" using Cons.prems by simp
    then have "number_websites (n + 1) ws ! j = (ws ! j)\<lparr>w_id := n + 1 + int j\<rparr>"
      by (rule Cons.IH)
    then show ?thesis using Suc by (simp add: add.assoc)
  qed
qed

lemma length_number_attempts: "length (number_attempts n as) = length as"
  by (induction as arbitrary: n) auto

lemma nth_number_attempts:
  "k < length as \<Longrightarrow> number_attempts n as ! k = stored_attempt (n + int k) (as ! k)"
proof (induction as arbitrary: n k)
  case Nil
  then show ?case by simp
next
  case (Cons a as)
  show ?case
  proof (cases k)
    case 0
    then show ?thesis by simp
  next
    case (Suc j)
    then have "j < length as" using Cons.prems by simp
    then have "number_attempts (n + 1) as ! j = stored_attempt (n + 1 + int j) (as ! j)"
      by (rule Cons.IH)
    then show ?thesis using Suc by (simp add: add.assoc)
  qed
qed

lemma run_websites_exact:
  "websitesWritable s \<Longrightarrow> \<forall>x\<in>set ops. \<not> is_track x \<Longrightarrow>
   readWebsites (run_ops ops s) =
     readWebsites s @
     number_websites (getNextId (map w_id (readWebsites s))) (saved_websites ops)"
  unfolding run_ops_def
proof (induction ops arbitrary: s)
  case Nil
  then show ?case by simp
next
  case (Cons x ops)
  have w1: "websitesWritable (run_op x s)" using Cons.prems(1) by (simp add: flags_run_op)
  have nt: "\<forall>y\<in>set ops. \<not> is_track y" using Cons.prems(2) by simp
  note ih = Cons.IH [OF w1 nt]
  show ?case
  proof (cases x)
    case (SaveWebsite w)
    have r1: "readWebsites (run_op x s) =
        readWebsites s @ [w\<lparr>w_id := getNextId (map w_id (readWebsites s))\<rparr>]"
      using SaveWebsite Cons.prems(1) by (simp add: websites_after_saveWebsite)
    have n1: "getNextId (map w_id (readWebsites (run_op x s))) =
        getNextId (map w_id (readWebsites s)) + 1"
      using getNextId_snoc [of "map w_id (readWebsites s)"] by (simp add: r1)
    show ?thesis using ih n1 r1 unfolding SaveWebsite by simp
  next
    case (SaveCloneAttempt a)
    then have "readWebsites (run_op x s) = readWebsites s"
      by (simp add: websites_after_saveCloneAttempt)
    then show ?thesis using ih SaveCloneAttempt by simp
  next
    case (Track c)
    then show ?thesis using Cons.prems(2) by simp
  qed
qed

lemma run_attempts_exact:
  "attemptsWritable s \<Longrightarrow> \<forall>x\<in>set ops. \<not> is_track x \<Longrightarrow>
   readAttempts (run_ops ops s) =
     readAttempts s @
     number_attempts (getNextId (map a_id (readAttempts s))) (saved_attempts ops)"
  unfolding run_ops_def
proof (induction ops arbitrary: s)
  case Nil
  then show ?case by simp
next
  case (Cons x ops)
  have w1: "attemptsWritable (run_op x s)" using Cons.prems(1) by (simp add: flags_run_op)
  have nt: "\<forall>y\<in>set ops. \<not> is_track y" using Cons.prems(2) by simp
  note ih = Cons.IH [OF w1 nt]
  show ?case
  proof (cases x)
    case (SaveWebsite w)
    then have "readAttempts (run_op x s) = readAttempts s"
      by (simp add: attempts_after_saveWebsite)
    then show ?thesis using ih SaveWebsite by simp
  next
    case (SaveCloneAttempt a)
    have r1: "readAttempts (run_op x s) =
        readAttempts s @ [stored_attempt (getNextId (map a_id (readAttempts s))) a]"
      using SaveCloneAttempt Cons.prems(1) by (simp add: attempts_after_saveCloneAttempt)
    have n1: "getNextId (map a_id (readAttempts (run_op x s))) =
        getNextId (map a_id (readAttempts s)) + 1"
      using getNextId_snoc [of "map a_id (readAttempts s)"]
      by (simp add: r1 stored_attempt_def)
    show ?thesis using ih n1 r1 unfolding SaveCloneAttempt by simp
  next
    case (Track c)
    then show ?thesis using Cons.prems(2) by simp
  qed
qed


lemmas store_defs = run_ops_def saveWebsite_def saveCloneAttempt_def Let_def readWebsites_def
  writeWebsites_def readAttempts_def writeAttempts_def getNextId_def empty_db_def
  website_of_def attempt_of_def exportData_def example_ops_def

subsection \<open>The identifiers that a sequence of calls resolves with\<close>

lemma next_id_step_websites:
  "websitesWritable s \<Longrightarrow>
   getNextId (map w_id (readWebsites s)) \<le> getNextId (map w_id (readWebsites (run_op x s)))"
  using step_websites [of x s] getNextId_snoc [of "map w_id (readWebsites s)"] by auto

lemma next_id_step_attempts:
  "attemptsWritable s \<Longrightarrow>
   getNextId (map a_id (readAttempts s)) \<le> getNextId (map a_id (readAttempts (run_op x s)))"
  using step_attempts [of x s] getNextId_snoc [of "map a_id (readAttempts s)"] by auto

lemma next_id_after_saveWebsite:
  "websitesWritable s \<Longrightarrow>
   getNextId (map w_id (readWebsites (snd (saveWebsite w s)))) =
     getNextId (map w_id (readWebsites s)) + 1"
  using getNextId_snoc [of "map w_id (readWebsites s)"]
  by (simp add: websites_after_saveWebsite)

lemma next_id_after_saveCloneAttempt:
  "attemptsWritable s \<Longrightarrow>
   getNextId (map a_id (readAttempts (snd (saveCloneAttempt a s)))) =
     getNextId (map a_id (readAttempts s)) + 1"
  using getNextId_snoc [of "map a_id (readAttempts s)"]
  by (simp add: attempts_after_saveCloneAttempt stored_attempt_def)

lemma next_id_after_track:
  "attemptsWritable s \<Longrightarrow>
   getNextId (map a_id (readAttempts (snd (track c s)))) =
     getNextId (map a_id (readAttempts s)) + 1"
  using getNextId_snoc [of "map a_id (readAttempts s)"]
  by (simp add: attempts_after_track stored_attempt_def)

lemma website_ids_returned_increase:
  "websitesWritable s \<Longrightarrow>
   sorted_wrt (<) (website_ids_returned ops s) \<and>
   (\<forall>i\<in>set (website_ids_returned ops s). getNextId (map w_id (readWebsites s)) \<le> i)"
proof (induction ops arbitrary: s)
  case Nil
  then show ?case by simp
next
  case (Cons x ops)
  have w1: "websitesWritable (run_op x s)" using Cons.prems by (simp add: flags_run_op)
  note ih = Cons.IH [OF w1]
  note mono = next_id_step_websites [OF Cons.prems, of x]
  show ?case
  proof (cases x)
    case (SaveWebsite w)
    have n1: "getNextId (map w_id (readWebsites (snd (saveWebsite w s)))) =
        getNextId (map w_id (readWebsites s)) + 1"
      using Cons.prems by (rule next_id_after_saveWebsite)
    show ?thesis
      using ih n1 unfolding SaveWebsite by (fastforce simp: fst_saveWebsite)
  next
    case (SaveCloneAttempt a)
    show ?thesis
      using ih mono unfolding SaveCloneAttempt by fastforce
  next
    case (Track c)
    show ?thesis
      using ih mono unfolding Track by fastforce
  qed
qed

lemma attempt_ids_returned_increase:
  "attemptsWritable s \<Longrightarrow>
   sorted_wrt (<) (attempt_ids_returned ops s) \<and>
   (\<forall>i\<in>set (attempt_ids_returned ops s). getNextId (map a_id (readAttempts s)) \<le> i)"
proof (induction ops arbitrary: s)
  case Nil
  then show ?case by simp
next
  case (Cons x ops)
  have w1: "attemptsWritable (run_op x s)" using Cons.prems by (simp add: flags_run_op)
  note ih = Cons.IH [OF w1]
  note mono = next_id_step_attempts [OF Cons.prems, of x]
  show ?case
  proof (cases x)
    case (SaveWebsite w)
    show ?thesis
      using ih mono unfolding SaveWebsite by fastforce
  next
    case (SaveCloneAttempt a)
    have n1: "getNextId (map a_id (readAttempts (snd (saveCloneAttempt a s)))) =
        getNextId (map a_id (readAttempts s)) + 1"
      using Cons.prems by (rule next_id_after_saveCloneAttempt)
    show ?thesis
      using ih n1 unfolding SaveCloneAttempt by (fastforce simp: fst_saveCloneAttempt)
  next
    case (Track c)
    have n1: "getNextId (map a_id (readAttempts (snd (track c s)))) =
        getNextId (map a_id (readAttempts s)) + 1"
      using Cons.prems by (rule next_id_after_track)
    show ?thesis
      using ih n1 unfolding Track by (fastforce simp: fst_track)
  qed
qed

lemma website_ids_returned_fresh:
  assumes "websitesWritable s" and "i \<in> set (website_ids_returned ops s)"
    and "r \<in> set (readWebsites s)"
  shows "w_id r < i"
proof -
  have "w_id r < getNextId (map w_id (readWebsites s))"
    using assms(3) by (simp add: getNextId_greater)
  then show ?thesis
    using website_ids_returned_increase [OF assms(1), of ops] assms(2) by fastforce
qed

lemma attempt_ids_returned_fresh:
  assumes "attemptsWritable s" and "i \<in> set (attempt_ids_returned ops s)"
    and "r \<in> set (readAttempts s)"
  shows "a_id r < i"
proof -
  have "a_id r < getNextId (map a_id (readAttempts s))"
    using assms(3) by (simp add: getNextId_greater)
  then show ?thesis
    using attempt_ids_returned_increase [OF assms(1), of ops] assms(2) by fastforce
qed

lemma length_website_ids_returned:
  "length (website_ids_returned ops s) = length (saved_websites ops)"
  by (induction ops s rule: website_ids_returned.induct) (simp_all add: fst_saveWebsite)

lemma length_attempt_ids_returned:
  "length (attempt_ids_returned ops s) = length (filter (\<lambda>x. \<not> is_save_website x) ops)"
  by (induction ops s rule: attempt_ids_returned.induct)
     (simp_all add: fst_saveCloneAttempt fst_track)

text \<open>A write that fails behind the open loses the records that were stored.\<close>

lemma truncating_failure_loses_records:
  "\<not> websitesWritable s \<Longrightarrow> websitesFailure s = TruncatesFile \<Longrightarrow>
   readWebsites (snd (saveWebsite w s)) = []"
  "\<not> attemptsWritable s \<Longrightarrow> attemptsFailure s = TruncatesFile \<Longrightarrow>
   readAttempts (snd (saveCloneAttempt a s)) = []"
  by (simp_all add: websites_after_saveWebsite attempts_after_saveCloneAttempt)

subsection \<open>Tracking and the uniqueness of urls\<close>

lemmas track_defs = track_def trackWebsiteClone_def getWebsiteByUrl_def call_of_def
  example_tracks_def derive_provider_def

lemma step_distinct_urls:
  assumes "distinct (map w_url (readWebsites s))" and "\<not> is_save_website x"
  shows "distinct (map w_url (readWebsites (run_op x s)))"
proof (cases x)
  case (SaveWebsite w)
  then show ?thesis using assms(2) by simp
next
  case (SaveCloneAttempt a)
  then show ?thesis using assms(1) by (simp add: websites_after_saveCloneAttempt)
next
  case (Track c)
  then show ?thesis using assms(1)
    by (simp add: websites_after_track placeholder_website_def)
qed

lemma run_distinct_urls:
  "distinct (map w_url (readWebsites s)) \<Longrightarrow> \<forall>x\<in>set ops. \<not> is_save_website x \<Longrightarrow>
   distinct (map w_url (readWebsites (run_ops ops s)))"
  unfolding run_ops_def
  by (induction ops arbitrary: s) (simp_all add: step_distinct_urls)

lemma track_reuses:
  assumes "getWebsiteByUrl (t_url c) s = Some w"
  shows "readWebsites (snd (track c s)) = readWebsites s"
    and "attemptsWritable s \<Longrightarrow> a_website_id (last (readAttempts (snd (track c s)))) = w_id w"
  using assms
  by (simp_all add: track_found websites_after_saveCloneAttempt attempts_after_saveCloneAttempt
      stored_attempt_def tracked_attempt_def)

lemma track_twice:
  assumes "websitesWritable s" and "t_url c' = t_url c"
  shows "readWebsites (snd (track c' (snd (track c s)))) = readWebsites (snd (track c s))"
proof -
  have "t_url c \<in> set (map w_url (readWebsites (snd (track c s))))"
    using assms(1) by (simp add: websites_after_track placeholder_website_def)
  then show ?thesis using assms(2) by (simp add: websites_after_track [of c'])
qed

subsection \<open>Statistics\<close>

lemma getModelStats_unfold:
  assumes as: "as = filter (\<lambda>a. a_model_used a = M) (readAttempts s)"
    and succ: "succ = filter (\<lambda>a. a_status a = ''success'') as"
    and ne: "as \<noteq> []"
  shows "\<exists>st. getModelStats getTime M s = Some st \<and>
      total_attempts st = length as \<and>
      success_rate st = js_times (js_div (real (length succ)) (real (length as))) 100 \<and>
      avg_generation_time_ms st =
        js_div (sum_list (map (\<lambda>a. case a_generation_time_ms a of None \<Rightarrow> 0 | Some t \<Rightarrow> t) as)) (real (length as)) \<and>
      avg_code_size_bytes st =
        js_div (sum_list (map (\<lambda>a. case a_code_size_bytes a of None \<Rightarrow> 0 | Some b \<Rightarrow> b) succ)) (real (length succ))"
proof -
  define sorted where "sorted = js_sort (newest_first getTime) as"
  have l: "length sorted = length as" by (simp add: sorted_def length_js_sort)
  have f: "length (filter (\<lambda>a. a_status a = ''success'') sorted) = length succ"
    by (simp add: sorted_def succ filter_js_sort_length)
  have t: "sum_list (map (\<lambda>a. case a_generation_time_ms a of None \<Rightarrow> 0 | Some t \<Rightarrow> t) sorted) =
      sum_list (map (\<lambda>a. case a_generation_time_ms a of None \<Rightarrow> 0 | Some t \<Rightarrow> t) as)"
    unfolding sorted_def by (rule sum_list_js_sort)
  have z: "sum_list (map (\<lambda>a. case a_code_size_bytes a of None \<Rightarrow> 0 | Some b \<Rightarrow> b)
        (filter (\<lambda>a. a_status a = ''success'') sorted)) =
      sum_list (map (\<lambda>a. case a_code_size_bytes a of None \<Rightarrow> 0 | Some b \<Rightarrow> b) succ)"
    unfolding sorted_def succ by (rule sum_list_filter_js_sort)
  have g: "getCloneAttemptsByModel getTime M s = sorted"
    by (simp add: getCloneAttemptsByModel_def sorted_def as)
  have n: "length sorted \<noteq> 0" using ne l by simp
  show ?thesis
    unfolding getModelStats_def g Let_def
    using n by (simp add: foldl_plus l f t z)
qed

lemma getModelStats_none:
  "filter (\<lambda>a. a_model_used a = M) (readAttempts s) = [] \<Longrightarrow> getModelStats getTime M s = None"
  by (simp add: getModelStats_def getCloneAttemptsByModel_def js_sort_def)

lemma p_provider_stats: "p_provider (provider_stats as p) = p"
  by (simp add: provider_stats_def Let_def)

lemma avg_code_size_no_success:
  "filter (\<lambda>a. a_status a = ''success'') (filter (\<lambda>a. a_provider a = p) as) = [] \<Longrightarrow>
   p_avg_code_size (provider_stats as p) = Num 0"
  by (simp add: provider_stats_def Let_def js_div_def)

lemma rows_of_comparison:
  "set (getProviderComparison s) =
     provider_stats (readAttempts s) ` set (map a_provider (readAttempts s))"
  by (simp add: getProviderComparison_def Let_def set_js_sort set_set_to_array)

lemma provider_of_example: "derive_provider ''ollama/llama3.2:7b'' = ''ollama''"
  by (simp add: derive_provider_def)

lemma attempts_of_failed_only: "readAttempts failed_only_db =
    [(attempt_of 1 ''ollama/llama3.2:7b'' ''error'' 3000)\<lparr>a_id := 1\<rparr>]"
  by (simp add: failed_only_db_def readAttempts_def)

lemma comparison_of_failed_only: "getProviderComparison failed_only_db =
      [provider_stats (readAttempts failed_only_db) ''ollama'']"
    by (simp add: getProviderComparison_def attempts_of_failed_only attempt_of_def
      provider_of_example js_sort_def)

lemma no_success_for_provider: "filter (\<lambda>a. a_status a = ''success'')
        (filter (\<lambda>a. a_provider a = ''ollama'') (readAttempts failed_only_db)) = []"
  by (simp add: attempts_of_failed_only attempt_of_def)

lemma attempts_of_model_failed_only: "filter (\<lambda>a. a_model_used a = ''ollama/llama3.2:7b'') (readAttempts failed_only_db) =
      [(attempt_of 1 ''ollama/llama3.2:7b'' ''error'' 3000)\<lparr>a_id := 1\<rparr>]"
  by (simp add: attempts_of_failed_only attempt_of_def)

lemma no_success_in_failed_only: "filter (\<lambda>a. a_status a = ''success'')
      [(attempt_of 1 ''ollama/llama3.2:7b'' ''error'' 3000)\<lparr>a_id := 1\<rparr>] = []"
  by (simp add: attempt_of_def)

subsection \<open>Calls one after the other, from the empty store\<close>

lemma ids_number_websites:
  "map w_id (number_websites n ws) = map (\<lambda>k. n + int k) [0..<length ws]"
  by (rule nth_equalityI) (simp_all add: length_number_websites nth_number_websites)

lemma ids_number_attempts:
  "map a_id (number_attempts n as) = map (\<lambda>k. n + int k) [0..<length as]"
  by (rule nth_equalityI)
     (simp_all add: length_number_attempts nth_number_attempts stored_attempt_def)

lemma sequential_creates_from_empty:
  assumes "\<forall>x\<in>set ops. \<not> is_track x"
  shows "map w_id (readWebsites (run_ops ops empty_db)) =
           map (\<lambda>k. 1 + int k) [0..<length (saved_websites ops)]"
    and "map a_id (readAttempts (run_ops ops empty_db)) =
           map (\<lambda>k. 1 + int k) [0..<length (saved_attempts ops)]"
proof -
  have w: "websitesWritable empty_db" and a: "attemptsWritable empty_db"
    and e: "readWebsites empty_db = []" "readAttempts empty_db = []"
    by (simp_all add: empty_db_def readWebsites_def readAttempts_def)
  show "map w_id (readWebsites (run_ops ops empty_db)) =
           map (\<lambda>k. 1 + int k) [0..<length (saved_websites ops)]"
    using run_websites_exact [OF w assms] by (simp add: e getNextId_def ids_number_websites)
  show "map a_id (readAttempts (run_ops ops empty_db)) =
           map (\<lambda>k. 1 + int k) [0..<length (saved_attempts ops)]"
    using run_attempts_exact [OF a assms] by (simp add: e getNextId_def ids_number_attempts)
qed

section \<open>The claims\<close>

subsection \<open>C1: an attempt for a website that does not exist\<close>

text \<open>
  Claim C1 as stated fails. \<open>saveCloneAttempt\<close> never reads the website file. On the
  empty store, an attempt for website 42 is appended and the call resolves with 1: it
  is not rejected, and the collection of attempts is not what it was.
\<close>

theorem referential_check_counterexample:
  "a_website_id (attempt_of 42 ''ollama/llama3.2:7b'' ''success'' 3000)
     \<notin> set (map w_id (readWebsites empty_db)) \<and>
   fst (saveCloneAttempt (attempt_of 42 ''ollama/llama3.2:7b'' ''success'' 3000) empty_db) =
     Fulfilled 1 \<and>
   readAttempts (snd (saveCloneAttempt (attempt_of 42 ''ollama/llama3.2:7b'' ''success'' 3000)
     empty_db)) \<noteq> readAttempts empty_db"
  by (simp add: store_defs)

text \<open>
  Claim C1, amended. \<open>saveCloneAttempt\<close> does not check \<open>website_id\<close>: for every
  argument and every state whose attempts file can be written, whether or not the
  \<open>website_id\<close> is the identifier of a stored website, the call appends exactly one
  record, which carries that \<open>website_id\<close> and the next identifier, resolves with this
  identifier, and leaves the collection of websites as it was.
\<close>

theorem saveCloneAttempt_ignores_websites:
  "attemptsWritable s \<Longrightarrow>
   (\<exists>r. readAttempts (snd (saveCloneAttempt a s)) = readAttempts s @ [r] \<and>
        a_website_id r = a_website_id a \<and>
        a_id r = getNextId (map a_id (readAttempts s)) \<and>
        fst (saveCloneAttempt a s) = Fulfilled (a_id r)) \<and>
   readWebsites (snd (saveCloneAttempt a s)) = readWebsites s"
  by (simp add: attempts_after_saveCloneAttempt websites_after_saveCloneAttempt
      fst_saveCloneAttempt stored_attempt_def)

text \<open>
  The amended statement at the input of the counterexample.
\<close>

theorem saveCloneAttempt_ignores_websites_witness:
  "attemptsWritable empty_db \<and>
   a_website_id (attempt_of 42 ''m'' ''success'' 3000) \<notin> set (map w_id (readWebsites empty_db)) \<and>
   map a_website_id
     (readAttempts (snd (saveCloneAttempt (attempt_of 42 ''m'' ''success'' 3000) empty_db))) = [42] \<and>
   fst (saveCloneAttempt (attempt_of 42 ''m'' ''success'' 3000) empty_db) = Fulfilled 1"
proof -
  have h: "attemptsWritable empty_db" by (simp add: empty_db_def)
  have e: "readAttempts empty_db = []" by (simp add: empty_db_def readAttempts_def)
  have w: "readWebsites empty_db = []" by (simp add: empty_db_def readWebsites_def)
  have v: "a_website_id (attempt_of 42 ''m'' ''success'' 3000) = 42"
    by (simp add: attempt_of_def)
  show ?thesis
    using h saveCloneAttempt_ignores_websites [OF h, of "attempt_of 42 ''m'' ''success'' 3000"]
    by (auto simp: e w v getNextId_def)
qed

subsection \<open>C3: the uniqueness of urls\<close>

text \<open>
  Claim C3 as stated fails. \<open>saveWebsite\<close> does not look for a record with the same
  url: two calls with one url store two records with that url.
\<close>

theorem url_uniqueness_counterexample:
  "distinct (map w_url (readWebsites empty_db)) \<and>
   map w_url (readWebsites (run_ops
      [SaveWebsite (website_of ''https://a.example''),
       SaveWebsite (website_of ''https://a.example'')] empty_db)) =
     [''https://a.example'', ''https://a.example''] \<and>
   \<not> distinct (map w_url (readWebsites (run_ops
      [SaveWebsite (website_of ''https://a.example''),
       SaveWebsite (website_of ''https://a.example'')] empty_db)))"
  by (simp add: store_defs)

text \<open>
  Claim C3, amended. Only \<open>trackWebsiteClone\<close> looks a url up before it creates a
  website. Along any sequence of \<open>trackWebsiteClone\<close> and \<open>saveCloneAttempt\<close>
  calls that each run to their end, urls that are pairwise distinct stay so. A
  \<open>trackWebsiteClone\<close> call whose url is stored leaves the collection of websites as
  it was and gives its attempt the identifier of the first record with that url. When
  the website file can be written, a second call with the same url stores no further
  website.
\<close>

theorem url_unique_under_tracking:
  "(distinct (map w_url (readWebsites s)) \<and> (\<forall>x\<in>set ops. \<not> is_save_website x) \<longrightarrow>
      distinct (map w_url (readWebsites (run_ops ops s)))) \<and>
   (getWebsiteByUrl (t_url c) s = Some w \<longrightarrow>
      readWebsites (snd (track c s)) = readWebsites s \<and>
      (attemptsWritable s \<longrightarrow>
         a_website_id (last (readAttempts (snd (track c s)))) = w_id w)) \<and>
   (websitesWritable s \<and> t_url c' = t_url c \<longrightarrow>
      readWebsites (snd (track c' (snd (track c s)))) = readWebsites (snd (track c s)))"
  using run_distinct_urls [of s ops] track_reuses [of c s w] track_twice [of s c' c]
  by blast

text \<open>
  The amended statement at the store reached by one tracked call for a url, followed by
  two more tracked calls for that url and one direct attempt.
\<close>

theorem url_unique_under_tracking_witness:
  "distinct (map w_url (readWebsites tracked_once_db)) \<and>
   list_all (\<lambda>x. \<not> is_save_website x) example_tracks \<and>
   map w_id (readWebsites tracked_once_db) = [1] \<and>
   websitesWritable tracked_once_db \<and> attemptsWritable tracked_once_db \<and>
   map w_url (readWebsites (run_ops example_tracks tracked_once_db)) = [''https://a.example''] \<and>
   distinct (map w_url (readWebsites (run_ops example_tracks tracked_once_db))) \<and>
   readWebsites (snd (track (call_of ''https://a.example'' ''customModel'') tracked_once_db)) =
     readWebsites tracked_once_db \<and>
   a_website_id (last (readAttempts
     (snd (track (call_of ''https://a.example'' ''customModel'') tracked_once_db)))) = 1"
proof -
  define w where "w = (placeholder_website ''https://a.example'' ''2024-01-15T10:30:00.000Z'')
      \<lparr>w_id := 1\<rparr>"
  have rw: "readWebsites tracked_once_db = [w]"
    by (simp add: tracked_once_db_def store_defs track_defs w_def placeholder_website_def)
  have fl: "websitesWritable tracked_once_db" "attemptsWritable tracked_once_db"
    by (simp_all add: tracked_once_db_def store_defs track_defs)
  have h1: "distinct (map w_url (readWebsites tracked_once_db))" by (simp add: rw)
  have h2: "\<forall>x\<in>set example_tracks. \<not> is_save_website x"
    by (simp add: example_tracks_def)
  have h3: "getWebsiteByUrl (t_url (call_of ''https://a.example'' ''customModel''))
      tracked_once_db = Some w"
    by (simp add: getWebsiteByUrl_def rw call_of_def w_def placeholder_website_def)
  have u: "map w_url (readWebsites (run_ops example_tracks tracked_once_db)) =
      [''https://a.example'']"
    by (simp add: tracked_once_db_def store_defs track_defs)
  have i: "w_id w = 1" by (simp add: w_def)
  show ?thesis
    using h1 h2 h3 fl u
      url_unique_under_tracking [of tracked_once_db example_tracks
        "call_of ''https://a.example'' ''customModel''" w
        "call_of ''https://a.example'' ''customModel''"]
    by (simp add: list_all_iff rw i)
qed

subsection \<open>C4: a write that fails\<close>

text \<open>
  Claim C4 as stated fails. On a store whose files cannot be written, both save
  operations resolve with the identifier 1 as if the record had been stored, and the
  collection read back is empty.
\<close>

theorem write_failure_counterexample:
  "\<not> websitesWritable readonly_db \<and>
   fst (saveWebsite (website_of ''https://a.example'') readonly_db) = Fulfilled 1 \<and>
   readWebsites (snd (saveWebsite (website_of ''https://a.example'') readonly_db)) = [] \<and>
   \<not> attemptsWritable readonly_db \<and>
   fst (saveCloneAttempt (attempt_of 1 ''m'' ''success'' 3000) readonly_db) = Fulfilled 1 \<and>
   readAttempts (snd (saveCloneAttempt (attempt_of 1 ''m'' ''success'' 3000) readonly_db)) = []"
  by (simp add: store_defs readonly_db_def)

text \<open>
  Claim C4, amended. When the write fails, \<open>writeWebsites\<close> and \<open>writeAttempts\<close>
  catch the exception and return normally, so the save operation is not rejected: it
  resolves with the identifier it allocated, and no record with that identifier is in
  the collection afterwards. With a failed write that leaves the file as it was, the
  whole state is as before the call.
\<close>

theorem write_failure_swallowed:
  "(\<not> websitesWritable s \<longrightarrow>
      fst (saveWebsite w s) = Fulfilled (getNextId (map w_id (readWebsites s))) \<and>
      getNextId (map w_id (readWebsites s))
        \<notin> set (map w_id (readWebsites (snd (saveWebsite w s)))) \<and>
      (websitesFailure s = LeavesFile \<longrightarrow> snd (saveWebsite w s) = s)) \<and>
   (\<not> attemptsWritable s \<longrightarrow>
      fst (saveCloneAttempt a s) = Fulfilled (getNextId (map a_id (readAttempts s))) \<and>
      getNextId (map a_id (readAttempts s))
        \<notin> set (map a_id (readAttempts (snd (saveCloneAttempt a s)))) \<and>
      (attemptsFailure s = LeavesFile \<longrightarrow> snd (saveCloneAttempt a s) = s))"
proof -
  have w: "\<not> websitesWritable s \<Longrightarrow> websitesFailure s = LeavesFile \<Longrightarrow>
      snd (saveWebsite w s) = s"
    by (simp add: snd_saveWebsite writeWebsites_def)
  have a: "\<not> attemptsWritable s \<Longrightarrow> attemptsFailure s = LeavesFile \<Longrightarrow>
      snd (saveCloneAttempt a s) = s"
    by (simp add: snd_saveCloneAttempt writeAttempts_def)
  have fw: "getNextId (map w_id (readWebsites s)) \<notin> set (map w_id (readWebsites s))"
    by (rule getNextId_fresh)
  have fa: "getNextId (map a_id (readAttempts s)) \<notin> set (map a_id (readAttempts s))"
    by (rule getNextId_fresh)
  have nw: "\<not> websitesWritable s \<Longrightarrow>
      getNextId (map w_id (readWebsites s))
        \<notin> set (map w_id (readWebsites (snd (saveWebsite w s))))"
    using fw by (auto simp: websites_after_saveWebsite)
  have na: "\<not> attemptsWritable s \<Longrightarrow>
      getNextId (map a_id (readAttempts s))
        \<notin> set (map a_id (readAttempts (snd (saveCloneAttempt a s))))"
    using fa by (auto simp: attempts_after_saveCloneAttempt)
  show ?thesis
    using w a nw na by (simp add: fst_saveWebsite fst_saveCloneAttempt)
qed

text \<open>
  The amended statement on the store whose files cannot be written.
\<close>

theorem write_failure_swallowed_witness:
  "fst (saveWebsite (website_of ''https://a.example'') readonly_db) = Fulfilled 1 \<and>
   snd (saveWebsite (website_of ''https://a.example'') readonly_db) = readonly_db \<and>
   fst (saveCloneAttempt (attempt_of 1 ''m'' ''success'' 3000) readonly_db) = Fulfilled 1 \<and>
   snd (saveCloneAttempt (attempt_of 1 ''m'' ''success'' 3000) readonly_db) = readonly_db"
proof -
  have h: "\<not> websitesWritable readonly_db" "\<not> attemptsWritable readonly_db"
    "websitesFailure readonly_db = LeavesFile" "attemptsFailure readonly_db = LeavesFile"
    by (simp_all add: readonly_db_def)
  have e: "readWebsites readonly_db = []" "readAttempts readonly_db = []"
    by (simp_all add: readonly_db_def readWebsites_def readAttempts_def)
  show ?thesis
    using h write_failure_swallowed [of readonly_db "website_of ''https://a.example''"
        "attempt_of 1 ''m'' ''success'' 3000"]
    by (simp add: e getNextId_def)
qed

subsection \<open>C5: field validation\<close>

text \<open>
  Claim C5 as stated fails. Neither save operation inspects a field of its argument. A
  website with the empty url is stored, and so is an attempt whose \<open>website_id\<close> is
  0 or negative. (An absent \<open>website_id\<close> is excluded by the type of the argument.)
\<close>

theorem field_validation_counterexample:
  "w_url (website_of '''') = '''' \<and>
   fst (saveWebsite (website_of '''') empty_db) = Fulfilled 1 \<and>
   map w_url (readWebsites (snd (saveWebsite (website_of '''') empty_db))) = [''''] \<and>
   readWebsites empty_db = [] \<and>
   a_website_id (attempt_of 0 ''m'' ''success'' 3000) = 0 \<and>
   fst (saveCloneAttempt (attempt_of 0 ''m'' ''success'' 3000) empty_db) = Fulfilled 1 \<and>
   map a_website_id
     (readAttempts (snd (saveCloneAttempt (attempt_of 0 ''m'' ''success'' 3000) empty_db))) = [0] \<and>
   map a_website_id
     (readAttempts (snd (saveCloneAttempt (attempt_of (- 5) ''m'' ''success'' 3000) empty_db))) = [- 5] \<and>
   readAttempts empty_db = []"
  by (simp add: store_defs)

text \<open>
  Claim C5, amended. No field is validated: when the file can be written,
  \<open>saveWebsite\<close> with the empty url appends the record and resolves with its
  identifier, and \<open>saveCloneAttempt\<close> with a \<open>website_id\<close> that is 0 or negative
  appends a record with that \<open>website_id\<close> and resolves with its identifier.
\<close>

theorem no_field_validation:
  "(websitesWritable s \<and> w_url w = '''' \<longrightarrow>
      fst (saveWebsite w s) = Fulfilled (getNextId (map w_id (readWebsites s))) \<and>
      readWebsites (snd (saveWebsite w s)) =
        readWebsites s @ [w\<lparr>w_id := getNextId (map w_id (readWebsites s))\<rparr>]) \<and>
   (attemptsWritable s \<and> a_website_id a \<le> 0 \<longrightarrow>
      fst (saveCloneAttempt a s) = Fulfilled (getNextId (map a_id (readAttempts s))) \<and>
      (\<exists>r. readAttempts (snd (saveCloneAttempt a s)) = readAttempts s @ [r] \<and>
           a_website_id r = a_website_id a \<and>
           a_id r = getNextId (map a_id (readAttempts s))))"
  by (simp add: websites_after_saveWebsite attempts_after_saveCloneAttempt fst_saveWebsite
      fst_saveCloneAttempt stored_attempt_def)

text \<open>
  The amended statement for the empty url and for the website identifier -5.
\<close>

theorem no_field_validation_witness:
  "websitesWritable empty_db \<and> w_url (website_of '''') = '''' \<and>
   readWebsites (snd (saveWebsite (website_of '''') empty_db)) = [(website_of '''')\<lparr>w_id := 1\<rparr>] \<and>
   attemptsWritable empty_db \<and> a_website_id (attempt_of (- 5) ''m'' ''success'' 3000) \<le> 0 \<and>
   map a_website_id
     (readAttempts (snd (saveCloneAttempt (attempt_of (- 5) ''m'' ''success'' 3000) empty_db))) = [- 5]"
proof -
  have h: "websitesWritable empty_db" "attemptsWritable empty_db"
    by (simp_all add: empty_db_def)
  have u: "w_url (website_of '''') = ''''" by (simp add: website_of_def)
  have v: "a_website_id (attempt_of (- 5) ''m'' ''success'' 3000) = - 5"
    by (simp add: attempt_of_def)
  have e: "readWebsites empty_db = []" "readAttempts empty_db = []"
    by (simp_all add: empty_db_def readWebsites_def readAttempts_def)
  show ?thesis
    using h u no_field_validation [of empty_db "website_of ''''"
        "attempt_of (- 5) ''m'' ''success'' 3000"]
    by (auto simp: e v getNextId_def)
qed

subsection \<open>C6: the statistics of a model\<close>

text \<open>
  Claim C6. Let \<open>as\<close> be the stored attempts whose \<open>model_used\<close> is \<open>M\<close>. If there
  is none, \<open>getModelStats\<close> returns null. Otherwise it returns a value whose
  \<open>total_attempts\<close> is the number of these attempts, whose \<open>success_rate\<close> is the
  number of those with status \<open>success\<close> divided by the total, times 100, and whose
  \<open>avg_generation_time_ms\<close> is the sum of \<open>generation_time_ms\<close> over all of them (0
  where the field is missing) divided by the total. When at least one attempt
  succeeded, \<open>avg_code_size_bytes\<close> is the sum of \<open>code_size_bytes\<close> over the
  successful attempts only (0 where the field is missing) divided by their number;
  when none succeeded it is \<open>NaN\<close>. The order in which the attempts are listed, and
  so the parsing of dates, plays no part in these four values.
\<close>

theorem model_stats_values:
  "let as = filter (\<lambda>a. a_model_used a = M) (readAttempts s);
       succ = filter (\<lambda>a. a_status a = ''success'') as
   in (as = [] \<longrightarrow> getModelStats getTime M s = None) \<and>
      (as \<noteq> [] \<longrightarrow>
         (\<exists>st. getModelStats getTime M s = Some st \<and>
            total_attempts st = length as \<and>
            success_rate st = Num (real (length succ) / real (length as) * 100) \<and>
            avg_generation_time_ms st =
              Num (sum_list
                     (map (\<lambda>a. case a_generation_time_ms a of None \<Rightarrow> 0 | Some t \<Rightarrow> t) as)
                   / real (length as)) \<and>
            (succ \<noteq> [] \<longrightarrow>
               avg_code_size_bytes st =
                 Num (sum_list
                        (map (\<lambda>a. case a_code_size_bytes a of None \<Rightarrow> 0 | Some b \<Rightarrow> b) succ)
                      / real (length succ))) \<and>
            (succ = [] \<longrightarrow> avg_code_size_bytes st = NaN)))"
proof -
  define as where "as = filter (\<lambda>a. a_model_used a = M) (readAttempts s)"
  define succ where "succ = filter (\<lambda>a. a_status a = ''success'') as"
  define times where
    "times = sum_list (map (\<lambda>a. case a_generation_time_ms a of None \<Rightarrow> 0 | Some t \<Rightarrow> t) as)"
  define sizes where
    "sizes = sum_list (map (\<lambda>a. case a_code_size_bytes a of None \<Rightarrow> 0 | Some b \<Rightarrow> b) succ)"
  have none: "as = [] \<longrightarrow> getModelStats getTime M s = None"
    unfolding as_def by (simp add: getModelStats_none)
  have some: "\<exists>st. getModelStats getTime M s = Some st \<and>
            total_attempts st = length as \<and>
            success_rate st = Num (real (length succ) / real (length as) * 100) \<and>
            avg_generation_time_ms st = Num (times / real (length as)) \<and>
            (succ \<noteq> [] \<longrightarrow> avg_code_size_bytes st = Num (sizes / real (length succ))) \<and>
            (succ = [] \<longrightarrow> avg_code_size_bytes st = NaN)"
    if ne: "as \<noteq> []"
  proof -
    obtain st where st: "getModelStats getTime M s = Some st"
      "total_attempts st = length as"
      "success_rate st = js_times (js_div (real (length succ)) (real (length as))) 100"
      "avg_generation_time_ms st = js_div times (real (length as))"
      "avg_code_size_bytes st = js_div sizes (real (length succ))"
      using getModelStats_unfold [OF as_def succ_def ne]
      unfolding times_def sizes_def by blast
    have la: "real (length as) \<noteq> 0" using ne by simp
    have "success_rate st = Num (real (length succ) / real (length as) * 100)"
      using st(3) la by (simp add: js_div_def)
    moreover have "avg_generation_time_ms st = Num (times / real (length as))"
      using st(4) la by (simp add: js_div_def)
    moreover have "succ \<noteq> [] \<longrightarrow> avg_code_size_bytes st = Num (sizes / real (length succ))"
      using st(5) by (simp add: js_div_def)
    moreover have "succ = [] \<longrightarrow> avg_code_size_bytes st = NaN"
      using st(5) by (simp add: js_div_def sizes_def)
    ultimately show ?thesis using st(1,2) by blast
  qed
  show ?thesis
    unfolding Let_def using none some
    unfolding as_def succ_def times_def sizes_def by blast
qed

text \<open>
  Three attempts of one model with 3000, 4000 and 5000 ms, the first two successful
  with 1200 and 800 bytes, the failed one with 500 bytes, beside an attempt of another
  model with 70 bytes: 3 attempts, a success rate of 200/3, which is within 0.01 of
  66.67, a mean of 4000 ms, and a mean size of 1000 bytes.
\<close>

theorem model_stats_values_witness:
  "filter (\<lambda>a. a_model_used a = ''ollama/llama3.2:7b'') (readAttempts three_attempts_db) \<noteq> [] \<and>
   map_option total_attempts
     (getModelStats (\<lambda>d. NaN) ''ollama/llama3.2:7b'' three_attempts_db) = Some 3 \<and>
   map_option success_rate
     (getModelStats (\<lambda>d. NaN) ''ollama/llama3.2:7b'' three_attempts_db) = Some (Num (200 / 3)) \<and>
   \<bar>200 / 3 - 66.67\<bar> \<le> (0.01 :: real) \<and>
   map_option avg_generation_time_ms
     (getModelStats (\<lambda>d. NaN) ''ollama/llama3.2:7b'' three_attempts_db) = Some (Num 4000) \<and>
   map_option avg_code_size_bytes
     (getModelStats (\<lambda>d. NaN) ''ollama/llama3.2:7b'' three_attempts_db) = Some (Num 1000) \<and>
   getModelStats (\<lambda>d. NaN) ''nobody'' three_attempts_db = None"
proof -
  have f: "filter (\<lambda>a. a_model_used a = ''ollama/llama3.2:7b'') (readAttempts three_attempts_db) =
      [(attempt_of 1 ''ollama/llama3.2:7b'' ''success'' 3000)
           \<lparr>a_id := 1, a_code_size_bytes := Some 1200\<rparr>,
         (attempt_of 1 ''ollama/llama3.2:7b'' ''success'' 4000)
           \<lparr>a_id := 2, a_code_size_bytes := Some 800\<rparr>,
         (attempt_of 1 ''ollama/llama3.2:7b'' ''error'' 5000)
           \<lparr>a_id := 4, a_code_size_bytes := Some 500\<rparr>]"
    by (simp add: three_attempts_db_def readAttempts_def attempt_of_def)
  have g: "filter (\<lambda>a. a_model_used a = ''nobody'') (readAttempts three_attempts_db) = []"
    by (simp add: three_attempts_db_def readAttempts_def attempt_of_def)
  show ?thesis
    using model_stats_values [of "''ollama/llama3.2:7b''" three_attempts_db "\<lambda>d. NaN"]
      model_stats_values [of "''nobody''" three_attempts_db "\<lambda>d. NaN"]
    unfolding Let_def f g
    by (auto simp: attempt_of_def)
qed

subsection \<open>C7: the provider of a tracked attempt\<close>

text \<open>
  Claim C7. When the attempts file can be written, \<open>trackWebsiteClone\<close> appends one
  attempt, whose \<open>model_used\<close> is the model identifier passed and whose
  \<open>provider\<close> is the part of that identifier before its first \<open>/\<close>, or
  \<open>unknown\<close> when the identifier has no \<open>/\<close>.
\<close>

theorem provider_derivation:
  "attemptsWritable s \<Longrightarrow>
   (\<exists>r. readAttempts (snd (trackWebsiteClone u modelUsed code ms st err scrapedNow createdNow s)) =
          readAttempts s @ [r] \<and>
        a_model_used r = modelUsed \<and>
        a_provider r =
          (if CHR ''/'' \<in> set modelUsed
           then takeWhile (\<lambda>x. x \<noteq> CHR ''/'') modelUsed
           else ''unknown''))"
proof -
  assume h: "attemptsWritable s"
  define c where "c = \<lparr>t_url = u, t_modelUsed = modelUsed, t_generatedCode = code,
      t_generationTimeMs = ms, t_status = st, t_errorMessage = err,
      t_scrapedNow = scrapedNow, t_createdNow = createdNow\<rparr>"
  have t: "trackWebsiteClone u modelUsed code ms st err scrapedNow createdNow s = track c s"
    by (simp add: track_def c_def)
  have m: "t_modelUsed c = modelUsed" by (simp add: c_def)
  show ?thesis
    unfolding t using h m
    by (simp add: attempts_after_track stored_attempt_def tracked_attempt_def
        derive_provider_def hd_split_at)
qed

text \<open>
  The two identifiers named in the claim.
\<close>

theorem provider_derivation_witness:
  "attemptsWritable empty_db \<and>
   map a_provider (readAttempts (snd (trackWebsiteClone ''https://a.example''
      ''ollama/llama3.2:7b'' ''x'' 3500 ''success'' None ''t1'' ''t2'' empty_db))) = [''ollama''] \<and>
   map a_provider (readAttempts (snd (trackWebsiteClone ''https://a.example''
      ''customModel'' ''x'' 3500 ''success'' None ''t1'' ''t2'' empty_db))) = [''unknown'']"
proof -
  have h: "attemptsWritable empty_db" by (simp add: empty_db_def)
  have e: "readAttempts empty_db = []" by (simp add: empty_db_def readAttempts_def)
  show ?thesis
    using h
      provider_derivation [OF h, of "''https://a.example''" "''ollama/llama3.2:7b''" "''x''"
        3500 "''success''" None "''t1''" "''t2''"]
      provider_derivation [OF h, of "''https://a.example''" "''customModel''" "''x''"
        3500 "''success''" None "''t1''" "''t2''"]
    by (auto simp: e)
qed

subsection \<open>C8: the next identifier\<close>

text \<open>
  Claim C8 as stated fails in its last part. On the store whose files cannot be
  written, two \<open>saveWebsite\<close> calls one after the other both resolve with 1, and so do
  two \<open>saveCloneAttempt\<close> calls: the identifier is used again. On a store with the
  websites 1 and 2 whose write fails behind the open, the first call resolves with 3
  and the second with 1, the identifier of a record that was stored.
\<close>

theorem identifier_reuse_counterexample:
  "website_ids_returned
     [SaveWebsite (website_of ''https://a.example''),
      SaveWebsite (website_of ''https://b.example'')] readonly_db = [1, 1] \<and>
   attempt_ids_returned
     [SaveCloneAttempt (attempt_of 1 ''m'' ''success'' 3000),
      SaveCloneAttempt (attempt_of 1 ''m'' ''error'' 4000)] readonly_db = [1, 1] \<and>
   map w_id (readWebsites truncating_db) = [1, 2] \<and>
   website_ids_returned
     [SaveWebsite (website_of ''https://c.example''),
      SaveWebsite (website_of ''https://d.example'')] truncating_db = [3, 1]"
  by (simp add: store_defs readonly_db_def truncating_db_def)

text \<open>
  Claim C8, amended. In every state, \<open>saveWebsite\<close> and \<open>saveCloneAttempt\<close> resolve
  with the largest identifier of the collection they read plus one, or with 1 when that
  collection is empty; when the write succeeds this is the identifier of the record
  they append. The identifier differs from every identifier in the collection at the
  time of the call, and along any sequence of calls that each run to their end (the two
  save operations and \<open>trackWebsiteClone\<close>) the identifiers in a collection stay
  pairwise distinct. While the writes to a file succeed, the records stored in it keep
  their place and their identifier, and the identifiers that the calls of the sequence
  resolve with are strictly increasing and larger than every identifier stored at the
  start: none is used twice. Every call resolves with an identifier.
\<close>

theorem next_identifier_allocation:
  "fst (saveWebsite w s) =
     Fulfilled (if readWebsites s = [] then 1 else Max (set (map w_id (readWebsites s))) + 1) \<and>
   fst (saveCloneAttempt a s) =
     Fulfilled (if readAttempts s = [] then 1 else Max (set (map a_id (readAttempts s))) + 1) \<and>
   (websitesWritable s \<longrightarrow>
      readWebsites (snd (saveWebsite w s)) =
        readWebsites s @ [w\<lparr>w_id := getNextId (map w_id (readWebsites s))\<rparr>] \<and>
      fst (saveWebsite w s) = Fulfilled (w_id (last (readWebsites (snd (saveWebsite w s)))))) \<and>
   (attemptsWritable s \<longrightarrow>
      fst (saveCloneAttempt a s) =
        Fulfilled (a_id (last (readAttempts (snd (saveCloneAttempt a s)))))) \<and>
   (\<forall>r\<in>set (readWebsites s). fst (saveWebsite w s) \<noteq> Fulfilled (w_id r)) \<and>
   (\<forall>r\<in>set (readAttempts s). fst (saveCloneAttempt a s) \<noteq> Fulfilled (a_id r)) \<and>
   (distinct (map w_id (readWebsites s)) \<longrightarrow>
      distinct (map w_id (readWebsites (run_ops ops s)))) \<and>
   (distinct (map a_id (readAttempts s)) \<longrightarrow>
      distinct (map a_id (readAttempts (run_ops ops s)))) \<and>
   (websitesWritable s \<longrightarrow>
      take (length (readWebsites s)) (readWebsites (run_ops ops s)) = readWebsites s \<and>
      sorted_wrt (<) (website_ids_returned ops s) \<and>
      (\<forall>i\<in>set (website_ids_returned ops s). \<forall>r\<in>set (readWebsites s). w_id r < i)) \<and>
   (attemptsWritable s \<longrightarrow>
      take (length (readAttempts s)) (readAttempts (run_ops ops s)) = readAttempts s \<and>
      sorted_wrt (<) (attempt_ids_returned ops s) \<and>
      (\<forall>i\<in>set (attempt_ids_returned ops s). \<forall>r\<in>set (readAttempts s). a_id r < i)) \<and>
   length (website_ids_returned ops s) = length (saved_websites ops) \<and>
   length (attempt_ids_returned ops s) = length (filter (\<lambda>x. \<not> is_save_website x) ops)"
proof -
  have c1: "fst (saveWebsite w s) =
     Fulfilled (if readWebsites s = [] then 1 else Max (set (map w_id (readWebsites s))) + 1)"
    by (simp add: fst_saveWebsite getNextId_Max)
  have c2: "fst (saveCloneAttempt a s) =
     Fulfilled (if readAttempts s = [] then 1 else Max (set (map a_id (readAttempts s))) + 1)"
    by (simp add: fst_saveCloneAttempt getNextId_Max)
  have c3: "websitesWritable s \<longrightarrow>
      readWebsites (snd (saveWebsite w s)) =
        readWebsites s @ [w\<lparr>w_id := getNextId (map w_id (readWebsites s))\<rparr>] \<and>
      fst (saveWebsite w s) = Fulfilled (w_id (last (readWebsites (snd (saveWebsite w s)))))"
    by (simp add: websites_after_saveWebsite fst_saveWebsite)
  have c4: "attemptsWritable s \<longrightarrow>
      fst (saveCloneAttempt a s) =
        Fulfilled (a_id (last (readAttempts (snd (saveCloneAttempt a s)))))"
    by (simp add: attempts_after_saveCloneAttempt fst_saveCloneAttempt stored_attempt_def)
  have c5: "\<forall>r\<in>set (readWebsites s). fst (saveWebsite w s) \<noteq> Fulfilled (w_id r)"
    using getNextId_fresh [of "map w_id (readWebsites s)"] by (auto simp: fst_saveWebsite)
  have c6: "\<forall>r\<in>set (readAttempts s). fst (saveCloneAttempt a s) \<noteq> Fulfilled (a_id r)"
    using getNextId_fresh [of "map a_id (readAttempts s)"] by (auto simp: fst_saveCloneAttempt)
  have c7: "distinct (map w_id (readWebsites s)) \<longrightarrow>
      distinct (map w_id (readWebsites (run_ops ops s)))"
    by (simp add: run_distinct_websites)
  have c8: "distinct (map a_id (readAttempts s)) \<longrightarrow>
      distinct (map a_id (readAttempts (run_ops ops s)))"
    by (simp add: run_distinct_attempts)
  have c9: "websitesWritable s \<longrightarrow>
      take (length (readWebsites s)) (readWebsites (run_ops ops s)) = readWebsites s \<and>
      sorted_wrt (<) (website_ids_returned ops s) \<and>
      (\<forall>i\<in>set (website_ids_returned ops s). \<forall>r\<in>set (readWebsites s). w_id r < i)"
    using run_keeps_websites [of s ops] website_ids_returned_increase [of s ops]
      website_ids_returned_fresh [of s _ ops] by blast
  have c10: "attemptsWritable s \<longrightarrow>
      take (length (readAttempts s)) (readAttempts (run_ops ops s)) = readAttempts s \<and>
      sorted_wrt (<) (attempt_ids_returned ops s) \<and>
      (\<forall>i\<in>set (attempt_ids_returned ops s). \<forall>r\<in>set (readAttempts s). a_id r < i)"
    using run_keeps_attempts [of s ops] attempt_ids_returned_increase [of s ops]
      attempt_ids_returned_fresh [of s _ ops] by blast
  note c11 = length_website_ids_returned [of ops s]
  note c12 = length_attempt_ids_returned [of ops s]
  show ?thesis
    using c1 c2 c3 c4 c5 c6 c7 c8 c9 c10 c11 c12 by blast
qed

text \<open>
  The amended statement at the state reached from the empty store by two \<open>saveWebsite\<close>
  calls and one \<open>saveCloneAttempt\<close>: the next website is 3, the next attempt is 2, and
  the same three calls once more resolve with the websites 3 and 4 and the attempt 2.
\<close>

theorem next_identifier_allocation_witness:
  "distinct (map w_id (readWebsites (run_ops example_ops empty_db))) \<and>
   websitesWritable (run_ops example_ops empty_db) \<and>
   attemptsWritable (run_ops example_ops empty_db) \<and>
   fst (saveWebsite (website_of ''https://c.example'') (run_ops example_ops empty_db)) =
     Fulfilled 3 \<and>
   fst (saveCloneAttempt (attempt_of 7 ''m'' ''error'' 1) (run_ops example_ops empty_db)) =
     Fulfilled 2 \<and>
   distinct (map w_id (readWebsites (run_ops example_ops (run_ops example_ops empty_db)))) \<and>
   website_ids_returned example_ops (run_ops example_ops empty_db) = [3, 4] \<and>
   attempt_ids_returned example_ops (run_ops example_ops empty_db) = [2] \<and>
   sorted_wrt (<) (website_ids_returned example_ops (run_ops example_ops empty_db))"
proof -
  have ids: "map w_id (readWebsites (run_ops example_ops empty_db)) = [1, 2]"
    by (simp add: store_defs)
  have ida: "map a_id (readAttempts (run_ops example_ops empty_db)) = [1]"
    by (simp add: store_defs)
  have wr: "websitesWritable (run_ops example_ops empty_db)"
    "attemptsWritable (run_ops example_ops empty_db)"
    by (simp_all add: store_defs)
  have ne: "readWebsites (run_ops example_ops empty_db) \<noteq> []"
       "readAttempts (run_ops example_ops empty_db) \<noteq> []"
    using ids ida by auto
  have rw: "website_ids_returned example_ops (run_ops example_ops empty_db) = [3, 4]"
    by (simp add: store_defs)
  have ra: "attempt_ids_returned example_ops (run_ops example_ops empty_db) = [2]"
    by (simp add: store_defs)
  show ?thesis
    using wr ne rw ra
      next_identifier_allocation [of "website_of ''https://c.example''"
        "run_ops example_ops empty_db" "attempt_of 7 ''m'' ''error'' 1" example_ops]
    by (simp add: ids ida)
qed

subsection \<open>C9: export after writing\<close>

text \<open>
  Claim C9 as stated fails: it is not true of every starting state. On the store whose
  files cannot be written, two \<open>saveWebsite\<close> calls and one \<open>saveCloneAttempt\<close>
  all resolve with an identifier, and \<open>exportData\<close> returns no website and no attempt.
\<close>

theorem export_unwritable_counterexample:
  "length (saved_websites example_ops) = 2 \<and>
   length (saved_attempts example_ops) = 1 \<and>
   website_ids_returned example_ops readonly_db = [1, 1] \<and>
   attempt_ids_returned example_ops readonly_db = [1] \<and>
   websites (exportData (run_ops example_ops readonly_db)) = [] \<and>
   attempts (exportData (run_ops example_ops readonly_db)) = []"
  by (simp add: store_defs readonly_db_def)

text \<open>
  Claim C9, amended. From any state whose two files can be written, after any sequence
  of \<open>saveWebsite\<close> and \<open>saveCloneAttempt\<close> calls, \<open>exportData\<close> returns the
  starting contents followed by one record per call, in the order of the calls: as many
  new websites as \<open>saveWebsite\<close> calls and as many new attempts as
  \<open>saveCloneAttempt\<close> calls. Each new record has every field of the argument of its
  call, except the identifier, which is numbered on from the next identifier of the
  starting state, and, for an attempt, the two fields that \<open>saveCloneAttempt\<close>
  computes itself (\<open>code_size_bytes\<close>, \<open>component_count\<close>). The field values are
  those of the record types above: strings, finite numbers and JSON values, which a
  file holds as they are.
\<close>

theorem export_round_trip:
  assumes "websitesWritable s" and "attemptsWritable s" and "\<forall>x\<in>set ops. \<not> is_track x"
  shows "let e = exportData (run_ops ops s);
             W = drop (length (readWebsites s)) (websites e);
             A = drop (length (readAttempts s)) (attempts e);
             n = getNextId (map w_id (readWebsites s));
             m = getNextId (map a_id (readAttempts s))
         in take (length (readWebsites s)) (websites e) = readWebsites s \<and>
            take (length (readAttempts s)) (attempts e) = readAttempts s \<and>
            length W = length (saved_websites ops) \<and>
            length A = length (saved_attempts ops) \<and>
            (\<forall>k<length W. W ! k = (saved_websites ops ! k)\<lparr>w_id := n + int k\<rparr>) \<and>
            (\<forall>k<length A. A ! k = (saved_attempts ops ! k)
               \<lparr>a_id := m + int k,
                a_code_size_bytes :=
                  Some (case a_generated_code (saved_attempts ops ! k) of
                          None \<Rightarrow> 0
                        | Some code \<Rightarrow> real (length code)),
                a_component_count :=
                  Some (case a_generated_code (saved_attempts ops ! k) of
                          None \<Rightarrow> 0
                        | Some code \<Rightarrow>
                            real (count_matches ''export default function'' code))\<rparr>)"
proof -
  have w: "readWebsites (run_ops ops s) =
      readWebsites s @
      number_websites (getNextId (map w_id (readWebsites s))) (saved_websites ops)"
    using assms(1,3) by (rule run_websites_exact)
  have a: "readAttempts (run_ops ops s) =
      readAttempts s @
      number_attempts (getNextId (map a_id (readAttempts s))) (saved_attempts ops)"
    using assms(2,3) by (rule run_attempts_exact)
  show ?thesis
    unfolding Let_def exportData_def
    by (simp add: w a length_number_websites length_number_attempts nth_number_websites
        nth_number_attempts stored_attempt_literal)
qed

text \<open>Two websites and one attempt written to the empty store.\<close>

theorem export_round_trip_witness:
  "websitesWritable empty_db \<and> attemptsWritable empty_db \<and>
   list_all (\<lambda>x. \<not> is_track x) example_ops \<and>
   length (websites (exportData (run_ops example_ops empty_db))) = 2 \<and>
   length (attempts (exportData (run_ops example_ops empty_db))) = 1 \<and>
   websites (exportData (run_ops example_ops empty_db)) ! 1 =
     (website_of ''https://b.example'')\<lparr>w_id := 2\<rparr> \<and>
   attempts (exportData (run_ops example_ops empty_db)) ! 0 =
     (attempt_of 1 ''ollama/llama3.2:7b'' ''success'' 3000)
       \<lparr>a_generated_code := Some example_code, a_id := 1,
        a_code_size_bytes := Some 65, a_component_count := Some 2\<rparr>"
proof -
  have h1: "websitesWritable empty_db" by (simp add: empty_db_def)
  have h2: "attemptsWritable empty_db" by (simp add: empty_db_def)
  have h3: "\<forall>x\<in>set example_ops. \<not> is_track x" by (simp add: example_ops_def)
  have e1: "readWebsites empty_db = []" by (simp add: empty_db_def readWebsites_def)
  have e2: "readAttempts empty_db = []" by (simp add: empty_db_def readAttempts_def)
  have sw: "saved_websites example_ops =
      [website_of ''https://a.example'', website_of ''https://b.example'']"
    by (simp add: example_ops_def)
  have sa: "saved_attempts example_ops =
      [(attempt_of 1 ''ollama/llama3.2:7b'' ''success'' 3000)
         \<lparr>a_generated_code := Some example_code\<rparr>]"
    by (simp add: example_ops_def)
  have len: "length example_code = 65" by (simp add: example_code_def)
  have cnt: "count_matches ''export default function'' example_code = 2"
    by code_simp
  show ?thesis
    using h1 h2 h3 export_round_trip [OF h1 h2 h3]
    by (simp add: Let_def e1 e2 sw sa getNextId_def list_all_iff len cnt)
qed

subsection \<open>C10: no successful attempt\<close>

text \<open>
  Claim C10. For a model with stored attempts none of which has status \<open>success\<close>,
  \<open>getModelStats\<close> returns a value, not null, and its \<open>avg_code_size_bytes\<close> is
  the quotient 0 / 0, which is \<open>NaN\<close>: the division by the number of successful
  attempts is not guarded. In \<open>getProviderComparison\<close> every row of a provider
  without a successful attempt has \<open>avg_code_size\<close> 0, from the fallback
  \<open>|| 0\<close>; the rows are those of the providers of the stored attempts.
\<close>

theorem zero_success_code_size:
  "(filter (\<lambda>a. a_model_used a = M) (readAttempts s) \<noteq> [] \<and>
    filter (\<lambda>a. a_status a = ''success'')
      (filter (\<lambda>a. a_model_used a = M) (readAttempts s)) = [] \<longrightarrow>
      (\<exists>st. getModelStats getTime M s = Some st \<and>
         avg_code_size_bytes st = js_div 0 0 \<and> avg_code_size_bytes st = NaN)) \<and>
   (\<forall>row\<in>set (getProviderComparison s).
      filter (\<lambda>a. a_status a = ''success'')
        (filter (\<lambda>a. a_provider a = p_provider row) (readAttempts s)) = [] \<longrightarrow>
      p_avg_code_size row = js_or_zero (js_div 0 0) \<and> p_avg_code_size row = Num 0) \<and>
   set (map p_provider (getProviderComparison s)) = set (map a_provider (readAttempts s))"
proof -
  have a: "\<exists>st. getModelStats getTime M s = Some st \<and>
         avg_code_size_bytes st = js_div 0 0 \<and> avg_code_size_bytes st = NaN"
    if ne: "filter (\<lambda>a. a_model_used a = M) (readAttempts s) \<noteq> []"
      and ns: "filter (\<lambda>a. a_status a = ''success'')
        (filter (\<lambda>a. a_model_used a = M) (readAttempts s)) = []"
  proof -
    obtain st where st: "getModelStats getTime M s = Some st"
      "avg_code_size_bytes st =
         js_div (sum_list (map (\<lambda>a. case a_code_size_bytes a of None \<Rightarrow> 0 | Some b \<Rightarrow> b)
           (filter (\<lambda>a. a_status a = ''success'')
           (filter (\<lambda>a. a_model_used a = M) (readAttempts s)))))
          (real (length (filter (\<lambda>a. a_status a = ''success'')
           (filter (\<lambda>a. a_model_used a = M) (readAttempts s)))))"
      using getModelStats_unfold [OF refl refl ne, of getTime] by blast
    have "avg_code_size_bytes st = js_div 0 0" using st(2) unfolding ns by simp
    then show ?thesis using st(1) by (simp add: js_div_def)
  qed
  have b: "p_avg_code_size row = js_or_zero (js_div 0 0) \<and> p_avg_code_size row = Num 0"
    if r: "row \<in> set (getProviderComparison s)"
      and ns: "filter (\<lambda>a. a_status a = ''success'')
        (filter (\<lambda>a. a_provider a = p_provider row) (readAttempts s)) = []"
    for row
  proof -
    obtain p where p: "row = provider_stats (readAttempts s) p"
      using r unfolding rows_of_comparison by blast
    have "p_provider row = p" by (simp add: p p_provider_stats)
    then have "p_avg_code_size row = Num 0"
      using ns avg_code_size_no_success [of p "readAttempts s"] by (simp add: p)
    then show ?thesis by (simp add: js_div_def)
  qed
  have c: "set (map p_provider (getProviderComparison s)) = set (map a_provider (readAttempts s))"
    by (simp add: rows_of_comparison image_image p_provider_stats)
  show ?thesis using a b c by blast
qed

text \<open>
  One failed attempt, the only one of its model and of its provider.
\<close>

theorem zero_success_code_size_witness:
  "filter (\<lambda>a. a_model_used a = ''ollama/llama3.2:7b'') (readAttempts failed_only_db) \<noteq> [] \<and>
   filter (\<lambda>a. a_status a = ''success'')
     (filter (\<lambda>a. a_model_used a = ''ollama/llama3.2:7b'') (readAttempts failed_only_db)) = [] \<and>
   map_option avg_code_size_bytes
     (getModelStats (\<lambda>d. NaN) ''ollama/llama3.2:7b'' failed_only_db) = Some NaN \<and>
   map p_provider (getProviderComparison failed_only_db) = [''ollama''] \<and>
   map p_avg_code_size (getProviderComparison failed_only_db) = [Num 0]"
proof -
  have t: "(\<exists>st. getModelStats (\<lambda>d. NaN) ''ollama/llama3.2:7b'' failed_only_db = Some st \<and>
         avg_code_size_bytes st = NaN) \<and>
      p_avg_code_size (provider_stats (readAttempts failed_only_db) ''ollama'') = Num 0"
    using zero_success_code_size [of "''ollama/llama3.2:7b''" failed_only_db "\<lambda>d. NaN"]
    unfolding attempts_of_model_failed_only no_success_in_failed_only
      comparison_of_failed_only
    by (simp add: p_provider_stats no_success_for_provider [simplified] js_div_def)
  have m: "map_option avg_code_size_bytes
     (getModelStats (\<lambda>d. NaN) ''ollama/llama3.2:7b'' failed_only_db) = Some NaN"
    using t by auto
  show ?thesis
    unfolding attempts_of_model_failed_only no_success_in_failed_only
      comparison_of_failed_only using m t by (simp add: p_provider_stats)
qed

end
